theory Spec2Isabelle
  imports Main
begin

section \<open>Data model\<close>

text \<open>
  The replicator talks to the Google Sheets service through two operations,
  \<^verbatim>\<open>values().get\<close> and \<^verbatim>\<open>values().update\<close>. A cell is a string: the
  configuration is fetched with the default render option, and the copied
  values are passed through unchanged.

  A \<open>value_range\<close> is the dictionary the service answers a \<^verbatim>\<open>get\<close> with and
  the dictionary sent as the body of an \<^verbatim>\<open>update\<close>. Each of its keys may
  be absent; other keys are never read by the program.
\<close>

type_synonym cell = string

record value_range =
  vr_range :: "string option"
  vr_majorDimension :: "string option"
  vr_values :: "cell list list option"

datatype request =
  ValuesGet (spreadsheetId: string) (req_range: string) (majorDimension: string)
    (valueRenderOption: "string option")
| ValuesUpdate (spreadsheetId: string) (req_range: string) (valueInputOption: string)
    (body: value_range)

text \<open>
  \<^verbatim>\<open>googleapiclient.errors.HttpError\<close>: the program reads \<^verbatim>\<open>e.resp['status']\<close>
  and formats the exception with \<^verbatim>\<open>str(e)\<close>.
\<close>

datatype http_error = HttpError (status: string) (detail: string)

text \<open>What one call of \<^verbatim>\<open>request.execute()\<close> does.\<close>

datatype outcome =
  Returns value_range
| RaisesHttpError http_error
| RaisesOther string

text \<open>
  The service is any deterministic function of the requests executed so far
  and of the request executed now.
\<close>

type_synonym service = "request list \<Rightarrow> request \<Rightarrow> outcome"

text \<open>The exceptions that can leave a method of the class.\<close>

datatype exn =
  IndexError
| TypeError
| ValueError
| Exception string
| RecursionError
| HttpErrorExn http_error
| OtherExn string

text \<open>
  The fields of \<^verbatim>\<open>GoogleSheetsDataReplicator\<close> that the run reads or writes,
  and two fields that record what the run did to its environment: \<open>calls\<close>, the
  requests executed in order (one entry for each \<^verbatim>\<open>request.execute()\<close>), and
  \<open>slept\<close>, the total of the arguments of \<^verbatim>\<open>time.sleep\<close>.
\<close>

record state =
  source_sheet_index :: "nat option"
  destination_sheet_index :: "nat option"
  task_id_index :: "nat option"
  enable_index :: "nat option"
  tasks :: "cell list list"
  configuration_sheet_id :: string
  errors :: "string list list"
  calls :: "request list"
  slept :: nat

record range_pair =
  source_range :: string
  destination_range :: string

text \<open>
  A method either raises (\<open>Inl\<close>) or returns a value (\<open>Inr\<close>), in both cases
  leaving a state.
\<close>

type_synonym 'a result = "(exn + 'a) \<times> state"

section \<open>Operations\<close>

text \<open>\<^verbatim>\<open>__init__\<close>.\<close>

definition init :: "string \<Rightarrow> state" where
  "init config_sheet_id =
     \<lparr>source_sheet_index = None, destination_sheet_index = None,
      task_id_index = None, enable_index = None, tasks = [],
      configuration_sheet_id = config_sheet_id, errors = [], calls = [], slept = 0\<rparr>"

definition configuration_range :: string where
  "configuration_range = ''Configuration!A1:Z50''"

text \<open>
  \<^verbatim>\<open>xs[i]\<close> where \<open>i\<close> is one of the index fields: \<^verbatim>\<open>None\<close> is not an index
  (TypeError), and an index past the end raises IndexError. The index fields
  only ever hold values of \<^verbatim>\<open>enumerate\<close>, which are not negative.
\<close>

definition subscript :: "'a list \<Rightarrow> nat option \<Rightarrow> exn + 'a" where
  "subscript xs idx =
     (case idx of
        None \<Rightarrow> Inl TypeError
      | Some i \<Rightarrow> if i < length xs then Inr (xs ! i) else Inl IndexError)"

text \<open>Decimal digits of a natural number, as an f-string prints \<^verbatim>\<open>len(...)\<close>.\<close>

definition digit_char :: "nat \<Rightarrow> char" where
  "digit_char d = ''0123456789'' ! d"

fun str_nat :: "nat \<Rightarrow> string" where
  "str_nat n = (if n < 10 then [digit_char n] else str_nat (n div 10) @ [digit_char (n mod 10)])"

declare str_nat.simps [simp del]

text \<open>\<^verbatim>\<open>add_error\<close>.\<close>

definition add_error :: "state \<Rightarrow> string \<Rightarrow> state" where
  "add_error st message = st\<lparr>errors := errors st @ [[message]]\<rparr>"

text \<open>
  \<^verbatim>\<open>execute_request\<close>. The retry is a call of the method from inside its own
  \<^verbatim>\<open>except\<close> block, so every retry nests one activation deeper, and the
  interpreter raises \<^verbatim>\<open>RecursionError\<close> for the activation that no longer fits
  under its recursion limit. \<open>depth\<close> is the number of nested activations that
  still fit below the current one; the first activation is taken to fit. The
  activation that does not fit raises before its request is sent; the sleep
  before it has been done.
\<close>

fun execute_request :: "service \<Rightarrow> nat \<Rightarrow> state \<Rightarrow> request \<Rightarrow> value_range result" where
  "execute_request srv depth st request =
     (case srv (calls st) request of
        Returns response \<Rightarrow> (Inr response, st\<lparr>calls := calls st @ [request]\<rparr>)
      | RaisesHttpError e \<Rightarrow>
          if status e = ''429''
          then (case depth of
                  0 \<Rightarrow>
                    (Inl RecursionError,
                     st\<lparr>calls := calls st @ [request], slept := slept st + 100\<rparr>)
                | Suc d \<Rightarrow>
                    execute_request srv d
                      (st\<lparr>calls := calls st @ [request], slept := slept st + 100\<rparr>) request)
          else (Inl (HttpErrorExn e), st\<lparr>calls := calls st @ [request]\<rparr>)
      | RaisesOther x \<Rightarrow> (Inl (OtherExn x), st\<lparr>calls := calls st @ [request]\<rparr>))"

declare execute_request.simps [simp del]

text \<open>
  \<^verbatim>\<open>execute_request_or_log_error\<close>: only \<^verbatim>\<open>HttpError\<close> is caught; the value
  \<open>None\<close> inside \<open>Inr\<close> is Python's \<^verbatim>\<open>None\<close>. In the methods below \<open>depth\<close> is
  the number of nested activations of \<^verbatim>\<open>execute_request\<close> that fit when it is
  called from here; a method that calls \<^verbatim>\<open>execute_request\<close> itself is one frame
  higher on the stack and has room for one more.
\<close>

definition execute_request_or_log_error ::
  "service \<Rightarrow> nat \<Rightarrow> state \<Rightarrow> request \<Rightarrow> string \<Rightarrow> value_range option result" where
  "execute_request_or_log_error srv depth st request error_message =
     (case execute_request srv depth st request of
        (Inr response, st') \<Rightarrow> (Inr (Some response), st')
      | (Inl (HttpErrorExn e), st') \<Rightarrow>
          (Inr None, add_error st' (error_message @ '': '' @ detail e))
      | (Inl x, st') \<Rightarrow> (Inl x, st'))"

text \<open>
  \<^verbatim>\<open>get_source_destination_range_pairs\<close>: \<open>i\<close> runs over
  \<^verbatim>\<open>range(5, len(task), 2)\<close>; unpacking the slice \<^verbatim>\<open>task[i:i + 2]\<close> into two
  names raises ValueError when the slice has one element.
\<close>

function range_pairs_from :: "cell list \<Rightarrow> nat \<Rightarrow> range_pair list \<Rightarrow> exn + range_pair list" where
  "range_pairs_from task i pairs =
     (if i < length task
      then (case take 2 (drop i task) of
              [s, d] \<Rightarrow>
                range_pairs_from task (i + 2)
                  (pairs @ [\<lparr>source_range = s, destination_range = d\<rparr>])
            | _ \<Rightarrow> Inl ValueError)
      else Inr pairs)"
  by pat_completeness auto
termination
  by (relation "measure (\<lambda>(task, i, pairs). length task - i)") auto

declare range_pairs_from.simps [simp del]

definition get_source_destination_range_pairs :: "cell list \<Rightarrow> exn + range_pair list" where
  "get_source_destination_range_pairs task = range_pairs_from task 5 []"

text \<open>
  The body of the inner loop of \<^verbatim>\<open>process_tasks\<close> for one pair. The arguments
  of each call are evaluated left to right before the call, so a subscript
  that fails raises before anything is sent.
\<close>

definition copy_pair :: "service \<Rightarrow> nat \<Rightarrow> state \<Rightarrow> cell list \<Rightarrow> range_pair \<Rightarrow> unit result" where
  "copy_pair srv depth st task source_destination_pair =
     (case subscript task (source_sheet_index st) of
        Inl x \<Rightarrow> (Inl x, st)
      | Inr source_sheet \<Rightarrow>
     (case subscript task (task_id_index st) of
        Inl x \<Rightarrow> (Inl x, st)
      | Inr task_id \<Rightarrow>
     (case execute_request_or_log_error srv depth st
             (ValuesGet source_sheet (source_range source_destination_pair) ''ROWS''
                (Some ''UNFORMATTED_VALUE''))
             (''Failed to fetch data for task '' @ task_id) of
        (Inl x, st1) \<Rightarrow> (Inl x, st1)
      | (Inr None, st1) \<Rightarrow> (Inr (), st1)
      | (Inr (Some response), st1) \<Rightarrow>
     (case subscript task (destination_sheet_index st1) of
        Inl x \<Rightarrow> (Inl x, st1)
      | Inr destination_sheet \<Rightarrow>
     (case subscript task (task_id_index st1) of
        Inl x \<Rightarrow> (Inl x, st1)
      | Inr task_id' \<Rightarrow>
     (case execute_request_or_log_error srv depth st1
             (ValuesUpdate destination_sheet (destination_range source_destination_pair)
                ''RAW''
                (response\<lparr>vr_range := Some (destination_range source_destination_pair)\<rparr>))
             (''Failed to write data for task '' @ task_id') of
        (Inl x, st2) \<Rightarrow> (Inl x, st2)
      | (Inr _, st2) \<Rightarrow> (Inr (), st2)))))))"

text \<open>The inner loop of \<^verbatim>\<open>process_tasks\<close>.\<close>

fun copy_pairs ::
  "service \<Rightarrow> nat \<Rightarrow> state \<Rightarrow> cell list \<Rightarrow> range_pair list \<Rightarrow> unit result" where
  "copy_pairs srv depth st task [] = (Inr (), st)"
| "copy_pairs srv depth st task (p # ps) =
     (case copy_pair srv depth st task p of
        (Inl x, st') \<Rightarrow> (Inl x, st')
      | (Inr _, st') \<Rightarrow> copy_pairs srv depth st' task ps)"

text \<open>
  The body of the outer loop of \<^verbatim>\<open>process_tasks\<close> for one task. Python's
  \<^verbatim>\<open>%\<close> with a positive modulus is the floor modulus, as \<open>mod\<close> on \<open>int\<close>.
\<close>

definition process_task :: "service \<Rightarrow> nat \<Rightarrow> state \<Rightarrow> cell list \<Rightarrow> unit result" where
  "process_task srv depth st task =
     (case subscript task (enable_index st) of
        Inl x \<Rightarrow> (Inl x, st)
      | Inr enable \<Rightarrow>
          if enable \<noteq> ''TRUE'' then (Inr (), st)
          else if (int (length task) - 5) mod 2 \<noteq> 0
          then (case subscript task (task_id_index st) of
                  Inl x \<Rightarrow> (Inl x, st)
                | Inr task_id \<Rightarrow>
                    (Inr (), add_error st
                      (''Task '' @ task_id @
                       '' is not configured properly. Check source and destination pair.'')))
          else (case get_source_destination_range_pairs task of
                  Inl x \<Rightarrow> (Inl x, st)
                | Inr pairs \<Rightarrow> copy_pairs srv depth st task pairs))"

fun process_task_list :: "service \<Rightarrow> nat \<Rightarrow> state \<Rightarrow> cell list list \<Rightarrow> unit result" where
  "process_task_list srv depth st [] = (Inr (), st)"
| "process_task_list srv depth st (task # rest) =
     (case process_task srv depth st task of
        (Inl x, st') \<Rightarrow> (Inl x, st')
      | (Inr _, st') \<Rightarrow> process_task_list srv depth st' rest)"

text \<open>\<^verbatim>\<open>process_tasks\<close>.\<close>

definition process_tasks :: "service \<Rightarrow> nat \<Rightarrow> state \<Rightarrow> unit result" where
  "process_tasks srv depth st = process_task_list srv depth st (tasks st)"

text \<open>
  The loop of \<^verbatim>\<open>fetch_config_data\<close> over \<^verbatim>\<open>enumerate(response['values'][0])\<close>:
  four independent tests for each cell, each assigning the column.
\<close>

fun resolve_header :: "nat \<Rightarrow> cell list \<Rightarrow> state \<Rightarrow> state" where
  "resolve_header column [] st = st"
| "resolve_header column (v # rest) st =
     (let st1 = (if v = ''Source Sheet Id'' then st\<lparr>source_sheet_index := Some column\<rparr> else st);
          st2 = (if v = ''Destination Sheet Id''
                 then st1\<lparr>destination_sheet_index := Some column\<rparr> else st1);
          st3 = (if v = ''ID'' then st2\<lparr>task_id_index := Some column\<rparr> else st2);
          st4 = (if v = ''Enable'' then st3\<lparr>enable_index := Some column\<rparr> else st3)
      in resolve_header (column + 1) rest st4)"

text \<open>\<^verbatim>\<open>fetch_config_data\<close>.\<close>

definition fetch_config_data :: "service \<Rightarrow> nat \<Rightarrow> state \<Rightarrow> unit result" where
  "fetch_config_data srv depth st =
     (case execute_request srv (Suc depth) st
             (ValuesGet (configuration_sheet_id st) configuration_range ''ROWS'' None) of
        (Inl x, st1) \<Rightarrow> (Inl x, st1)
      | (Inr response, st1) \<Rightarrow>
          (case vr_values response of
             None \<Rightarrow> (Inl (Exception ''failed to fetch configuration data''), st1)
           | Some rows \<Rightarrow>
               (case rows of
                  [] \<Rightarrow> (Inl IndexError, st1)
                | header # _ \<Rightarrow>
                    (Inr (), (resolve_header 0 header st1)\<lparr>tasks := drop 1 rows\<rparr>))))"

text \<open>\<^verbatim>\<open>handle_errors\<close>.\<close>

definition handle_errors :: "service \<Rightarrow> nat \<Rightarrow> state \<Rightarrow> unit result" where
  "handle_errors srv depth st =
     (if length (errors st) > 0
      then (let error_range = ''Errors!A1:A'' @ str_nat (length (errors st));
                body = \<lparr>vr_range = Some error_range, vr_majorDimension = Some ''ROWS'',
                        vr_values = Some (errors st)\<rparr>
            in case execute_request srv (Suc depth) st
                      (ValuesUpdate (configuration_sheet_id st) error_range ''RAW'' body) of
                 (Inl x, st') \<Rightarrow> (Inl x, st')
               | (Inr _, st') \<Rightarrow> (Inr (), st'))
      else (Inr (), st))"

text \<open>
  \<^verbatim>\<open>GoogleSheetsDataReplicator.run\<close>, after \<^verbatim>\<open>initialize\<close> (which only obtains
  the credentials and the service object).
\<close>

definition run :: "service \<Rightarrow> nat \<Rightarrow> state \<Rightarrow> unit result" where
  "run srv depth st =
     (case fetch_config_data srv depth st of
        (Inl x, st1) \<Rightarrow> (Inl x, st1)
      | (Inr _, st1) \<Rightarrow>
          (case process_tasks srv depth st1 of
             (Inl x, st2) \<Rightarrow> (Inl x, st2)
           | (Inr _, st2) \<Rightarrow> handle_errors srv depth st2))"

section \<open>Auxiliary definitions\<close>

text \<open>
  An outcome that \<^verbatim>\<open>execute_request\<close> answers with a sleep and a retry.
\<close>

definition rate_limited :: "outcome \<Rightarrow> bool" where
  "rate_limited out = (case out of RaisesHttpError e \<Rightarrow> status e = ''429'' | _ \<Rightarrow> False)"

text \<open>
  Two states that differ at most in the error list, the call log and the time
  slept.
\<close>

definition same_config :: "state \<Rightarrow> state \<Rightarrow> bool" where
  "same_config st st' =
     (source_sheet_index st' = source_sheet_index st \<and>
      destination_sheet_index st' = destination_sheet_index st \<and>
      task_id_index st' = task_id_index st \<and>
      enable_index st' = enable_index st \<and>
      tasks st' = tasks st \<and>
      configuration_sheet_id st' = configuration_sheet_id st)"

text \<open>
  The calls of an enabled task with \<open>n\<close> range pairs when nothing fails: for
  each \<open>k < n\<close> the read of the source range \<open>task[5 + 2k]\<close> from the source
  sheet, then the write of the \<open>k\<close>-th fetched response to the destination
  range \<open>task[6 + 2k]\<close> on the destination sheet.
\<close>

definition expected_calls ::
  "cell list \<Rightarrow> nat \<Rightarrow> nat \<Rightarrow> value_range list \<Rightarrow> nat \<Rightarrow> request list" where
  "expected_calls task s d fetched n =
     concat (map (\<lambda>k. [ValuesGet (task ! s) (task ! (5 + 2 * k)) ''ROWS''
                          (Some ''UNFORMATTED_VALUE''),
                        ValuesUpdate (task ! d) (task ! (6 + 2 * k)) ''RAW''
                          ((fetched ! k)\<lparr>vr_range := Some (task ! (6 + 2 * k))\<rparr>)])
                 [0..<n])"

text \<open>
  The column one label ends with after the header loop: every cell equal to
  the label assigns its column.
\<close>

fun pick_column :: "cell \<Rightarrow> nat \<Rightarrow> cell list \<Rightarrow> nat option \<Rightarrow> nat option" where
  "pick_column label column [] old = old"
| "pick_column label column (v # rest) old =
     pick_column label (column + 1) rest (if v = label then Some column else old)"

text \<open>
  Every error record is a row of one cell.
\<close>

definition single_column :: "state \<Rightarrow> bool" where
  "single_column st = list_all (\<lambda>row. length row = 1) (errors st)"

section \<open>Example inputs\<close>

text \<open>
  Rows, header rows, responses, services and states at which the properties
  below are evaluated. A service named after a failure answers every call
  with it unless its definition says otherwise. The examples are run with
  room for five nested retries.
\<close>

definition example_task :: "cell list" where
  "example_task = [''T1'', ''srcSheet'', ''dstSheet'', ''TRUE'', '''', ''A1:A2'', ''B1:B2'']"

definition example_values :: value_range where
  "example_values =
     \<lparr>vr_range = Some ''A1:A2'', vr_majorDimension = Some ''ROWS'',
      vr_values = Some [[''1''], [''2'']]\<rparr>"

definition example_request :: request where
  "example_request = ValuesGet ''cfg'' ''Configuration!A1:Z50'' ''ROWS'' None"

definition quota_once :: service where
  "quota_once h r =
     (if h = [] then RaisesHttpError (HttpError ''429'' ''quota exceeded'')
      else Returns example_values)"

definition quota_always :: service where
  "quota_always h r = RaisesHttpError (HttpError ''429'' ''quota exceeded'')"

definition no_failures :: service where
  "no_failures h r = Returns example_values"

definition server_error :: service where
  "server_error h r = RaisesHttpError (HttpError ''500'' ''backend error'')"

definition connection_lost :: service where
  "connection_lost h r = RaisesOther ''connection reset''"

definition example_header :: "cell list" where
  "example_header = [''ID'', ''Source Sheet Id'', ''Destination Sheet Id'', ''Enable'', ''Reserved'']"

definition disabled_task :: "cell list" where
  "disabled_task = [''T1'', ''srcSheet'', ''dstSheet'', ''FALSE'', '''', ''A1:A2'', ''B1:B2'']"

definition odd_task :: "cell list" where
  "odd_task = [''T2'', ''srcSheet'', ''dstSheet'', ''TRUE'', '''', ''A1:A2'']"

definition odd_disabled_task :: "cell list" where
  "odd_disabled_task = [''T3'', ''srcSheet'', ''dstSheet'', ''FALSE'', '''', ''A1:A2'']"

definition configured :: state where
  "configured =
     \<lparr>source_sheet_index = Some 1, destination_sheet_index = Some 2,
      task_id_index = Some 0, enable_index = Some 3, tasks = [],
      configuration_sheet_id = ''cfg'', errors = [], calls = [], slept = 0\<rparr>"

definition config_with_empty_row :: value_range where
  "config_with_empty_row =
     \<lparr>vr_range = Some ''Configuration!A1:G4'', vr_majorDimension = Some ''ROWS'',
      vr_values = Some [example_header, odd_task, [], example_task]\<rparr>"

definition empty_row_service :: service where
  "empty_row_service h r = Returns config_with_empty_row"

definition after_empty_row :: state where
  "after_empty_row =
     \<lparr>source_sheet_index = Some 1, destination_sheet_index = Some 2,
      task_id_index = Some 0, enable_index = Some 3,
      tasks = [odd_task, [], example_task],
      configuration_sheet_id = ''cfg'',
      errors = [[''Task T2 is not configured properly. Check source and destination pair.'']],
      calls = [ValuesGet ''cfg'' ''Configuration!A1:Z50'' ''ROWS'' None], slept = 0\<rparr>"

definition two_pair_task :: "cell list" where
  "two_pair_task =
     [''T4'', ''srcSheet'', ''dstSheet'', ''TRUE'', '''', ''A1:A2'', ''B1:B2'', ''C1:C2'', ''D1:D2'']"

definition read_only_service :: service where
  "read_only_service h r =
     (case r of
        ValuesGet sheet rng dim render \<Rightarrow> Returns example_values
      | ValuesUpdate sheet rng input b \<Rightarrow> RaisesHttpError (HttpError ''403'' ''forbidden''))"

definition first_read_fails :: service where
  "first_read_fails h r =
     (if h = [] then RaisesHttpError (HttpError ''500'' ''backend error'')
      else Returns example_values)"

definition quota_then_error :: service where
  "quota_then_error h r =
     (if h = [] then RaisesHttpError (HttpError ''429'' ''quota exceeded'')
      else if length h = 1 then RaisesHttpError (HttpError ''500'' ''backend error'')
      else Returns example_values)"

definition short_enabled_task :: "cell list" where
  "short_enabled_task = [''TRUE'', ''T5'', ''srcSheet'']"

definition enable_first :: state where
  "enable_first =
     \<lparr>source_sheet_index = Some 2, destination_sheet_index = Some 3,
      task_id_index = Some 1, enable_index = Some 0, tasks = [],
      configuration_sheet_id = ''cfg'', errors = [], calls = [], slept = 0\<rparr>"

definition after_failed_read :: state where
  "after_failed_read =
     \<lparr>source_sheet_index = Some 1, destination_sheet_index = Some 2,
      task_id_index = Some 0, enable_index = Some 3, tasks = [],
      configuration_sheet_id = ''cfg'',
      errors = [[''Failed to fetch data for task T1: backend error'']],
      calls = [ValuesGet ''srcSheet'' ''A1:A2'' ''ROWS'' (Some ''UNFORMATTED_VALUE'')],
      slept = 0\<rparr>"

definition fails_elsewhere :: service where
  "fails_elsewhere h r =
     (if spreadsheetId r = ''otherSheet''
      then RaisesHttpError (HttpError ''500'' ''backend error'')
      else Returns example_values)"

definition duplicate_header :: "cell list" where
  "duplicate_header =
     [''ID'', ''Enable'', ''Source Sheet Id'', ''Destination Sheet Id'', ''Reserved'', ''Enable'']"

definition duplicate_header_config :: value_range where
  "duplicate_header_config =
     \<lparr>vr_range = Some ''Configuration!A1:F1'', vr_majorDimension = Some ''ROWS'',
      vr_values = Some [duplicate_header]\<rparr>"

definition duplicate_header_service :: service where
  "duplicate_header_service h r = Returns duplicate_header_config"

definition no_rows :: value_range where
  "no_rows =
     \<lparr>vr_range = Some ''Configuration!A1:Z50'', vr_majorDimension = Some ''ROWS'',
      vr_values = Some []\<rparr>"

definition no_rows_service :: service where
  "no_rows_service h r = Returns no_rows"

definition no_values :: value_range where
  "no_values =
     \<lparr>vr_range = Some ''Configuration!A1:Z50'', vr_majorDimension = Some ''ROWS'',
      vr_values = None\<rparr>"

definition no_values_service :: service where
  "no_values_service h r = Returns no_values"

definition two_errors :: state where
  "two_errors =
     \<lparr>source_sheet_index = Some 1, destination_sheet_index = Some 2,
      task_id_index = Some 0, enable_index = Some 3, tasks = [],
      configuration_sheet_id = ''cfg'',
      errors = [[''Failed to fetch data for task T1: backend error''],
                [''Task T2 is not configured properly. Check source and destination pair.'']],
      calls = [], slept = 0\<rparr>"

definition two_errors_request :: request where
  "two_errors_request =
     ValuesUpdate ''cfg'' ''Errors!A1:A2'' ''RAW''
       \<lparr>vr_range = Some ''Errors!A1:A2'', vr_majorDimension = Some ''ROWS'',
        vr_values = Some
          [[''Failed to fetch data for task T1: backend error''],
           [''Task T2 is not configured properly. Check source and destination pair.'']]\<rparr>"

definition twelve_errors :: state where
  "twelve_errors =
     \<lparr>source_sheet_index = Some 1, destination_sheet_index = Some 2,
      task_id_index = Some 0, enable_index = Some 3, tasks = [],
      configuration_sheet_id = ''cfg'',
      errors = replicate 12 [''Failed to fetch data for task T1: backend error''],
      calls = [], slept = 0\<rparr>"

definition twelve_errors_request :: request where
  "twelve_errors_request =
     ValuesUpdate ''cfg'' ''Errors!A1:A12'' ''RAW''
       \<lparr>vr_range = Some ''Errors!A1:A12'', vr_majorDimension = Some ''ROWS'',
        vr_values = Some (replicate 12 [''Failed to fetch data for task T1: backend error''])\<rparr>"

definition odd_row_config :: value_range where
  "odd_row_config =
     \<lparr>vr_range = Some ''Configuration!A1:F2'', vr_majorDimension = Some ''ROWS'',
      vr_values = Some [example_header, odd_task]\<rparr>"

definition odd_row_service :: service where
  "odd_row_service h r = Returns odd_row_config"

definition odd_row_loaded :: state where
  "odd_row_loaded =
     \<lparr>source_sheet_index = Some 1, destination_sheet_index = Some 2,
      task_id_index = Some 0, enable_index = Some 3, tasks = [odd_task],
      configuration_sheet_id = ''cfg'', errors = [],
      calls = [ValuesGet ''cfg'' ''Configuration!A1:Z50'' ''ROWS'' None], slept = 0\<rparr>"

section \<open>Lemmas on the range pair loop and on the retry loop\<close>

lemma take2_drop:
  "i + 2 \<le> length xs \<Longrightarrow> take 2 (drop i xs) = [xs ! i, xs ! (i + 1)]"
proof -
  assume h: "i + 2 \<le> length xs"
  then have "drop i xs = xs ! i # drop (Suc i) xs"
    by (simp add: Cons_nth_drop_Suc)
  moreover from h have "drop (Suc i) xs = xs ! (Suc i) # drop (Suc (Suc i)) xs"
    by (simp add: Cons_nth_drop_Suc)
  ultimately show ?thesis
    by (simp add: numeral_2_eq_2)
qed

lemma range_pairs_from_even:
  "i \<le> length task \<Longrightarrow> even (length task - i) \<Longrightarrow>
   range_pairs_from task i pairs =
     Inr (pairs @ map (\<lambda>k. \<lparr>source_range = task ! (i + 2 * k),
                            destination_range = task ! (i + 2 * k + 1)\<rparr>)
                   [0..<(length task - i) div 2])"
proof (induction task i pairs rule: range_pairs_from.induct)
  case (1 task i pairs)
  show ?case
  proof (cases "i < length task")
    case False
    with "1.prems" show ?thesis
      by (simp add: range_pairs_from.simps)
  next
    case True
    with "1.prems" have two: "i + 2 \<le> length task"
      by (cases "length task - i = 1") auto
    then have sl: "take 2 (drop i task) = [task ! i, task ! (i + 1)]"
      by (rule take2_drop)
    from two "1.prems" have ev: "even (length task - (i + 2))"
      by simp
    from two have "length task - i = (length task - (i + 2)) + 2"
      by arith
    then have n: "(length task - i) div 2 = Suc ((length task - (i + 2)) div 2)"
      by simp
    have ih: "range_pairs_from task (i + 2)
                (pairs @ [\<lparr>source_range = task ! i, destination_range = task ! (i + 1)\<rparr>]) =
              Inr ((pairs @ [\<lparr>source_range = task ! i, destination_range = task ! (i + 1)\<rparr>]) @
                   map (\<lambda>k. \<lparr>source_range = task ! (i + 2 + 2 * k),
                              destination_range = task ! (i + 2 + 2 * k + 1)\<rparr>)
                       [0..<(length task - (i + 2)) div 2])"
      using "1.IH" [OF True sl] two ev by simp
    have step: "range_pairs_from task i pairs =
                range_pairs_from task (i + 2)
                  (pairs @ [\<lparr>source_range = task ! i, destination_range = task ! (i + 1)\<rparr>])"
      by (subst range_pairs_from.simps) (simp only: True sl if_True list.case)
    have shift: "map (\<lambda>k. \<lparr>source_range = task ! (i + 2 * k),
                              destination_range = task ! (i + 2 * k + 1)\<rparr>)
                   [0..<Suc ((length task - (i + 2)) div 2)] =
                 \<lparr>source_range = task ! i, destination_range = task ! (i + 1)\<rparr> #
                 map (\<lambda>k. \<lparr>source_range = task ! (i + 2 + 2 * k),
                              destination_range = task ! (i + 2 + 2 * k + 1)\<rparr>)
                   [0..<(length task - (i + 2)) div 2]"
      by (simp add: map_upt_Suc del: upt_Suc)
    show ?thesis
      by (simp only: step ih n shift append_assoc append.simps)
  qed
qed

lemma pairs_of_row:
  assumes "5 \<le> length row" and "even (length row - 5)"
  shows "get_source_destination_range_pairs row =
           Inr (map (\<lambda>k. \<lparr>source_range = row ! (5 + 2 * k),
                             destination_range = row ! (6 + 2 * k)\<rparr>)
                    [0..<(length row - 5) div 2])"
proof -
  have "range_pairs_from row 5 [] =
          Inr ([] @ map (\<lambda>k. \<lparr>source_range = row ! (5 + 2 * k),
                                 destination_range = row ! (5 + 2 * k + 1)\<rparr>)
                        [0..<(length row - 5) div 2])"
    using assms by (rule range_pairs_from_even)
  moreover have "\<And>k. 5 + 2 * k + 1 = 6 + 2 * (k::nat)"
    by simp
  ultimately show ?thesis
    by (simp add: get_source_destination_range_pairs_def)
qed

lemma execute_request_Returns:
  "srv (calls st) request = Returns response \<Longrightarrow>
   execute_request srv depth st request = (Inr response, st\<lparr>calls := calls st @ [request]\<rparr>)"
  by (subst execute_request.simps) simp

lemma execute_request_HttpError:
  "srv (calls st) request = RaisesHttpError e \<Longrightarrow> status e \<noteq> ''429'' \<Longrightarrow>
   execute_request srv depth st request =
     (Inl (HttpErrorExn e), st\<lparr>calls := calls st @ [request]\<rparr>)"
  by (subst execute_request.simps) simp

lemma execute_request_Other:
  "srv (calls st) request = RaisesOther x \<Longrightarrow>
   execute_request srv depth st request = (Inl (OtherExn x), st\<lparr>calls := calls st @ [request]\<rparr>)"
  by (subst execute_request.simps) simp

lemma execute_request_429:
  "rate_limited (srv (calls st) request) \<Longrightarrow>
   execute_request srv (Suc d) st request =
     execute_request srv d (st\<lparr>calls := calls st @ [request], slept := slept st + 100\<rparr>) request"
  by (subst execute_request.simps) (auto simp: rate_limited_def split: outcome.splits)

lemma execute_request_429_no_room:
  "rate_limited (srv (calls st) request) \<Longrightarrow>
   execute_request srv 0 st request =
     (Inl RecursionError, st\<lparr>calls := calls st @ [request], slept := slept st + 100\<rparr>)"
  by (subst execute_request.simps) (auto simp: rate_limited_def split: outcome.splits)

lemma execute_request_retries:
  "(\<forall>k<n. rate_limited (srv (calls st @ replicate k request) request)) \<Longrightarrow> n \<le> depth \<Longrightarrow>
   execute_request srv depth st request =
     execute_request srv (depth - n)
       (st\<lparr>calls := calls st @ replicate n request, slept := slept st + 100 * n\<rparr>) request"
proof (induction n)
  case 0
  show ?case by simp
next
  case (Suc n)
  let ?st = "st\<lparr>calls := calls st @ replicate n request, slept := slept st + 100 * n\<rparr>"
  from Suc.prems have d: "depth - n = Suc (depth - Suc n)"
    by simp
  from Suc.prems have "rate_limited (srv (calls ?st) request)"
    by simp
  then have "execute_request srv (Suc (depth - Suc n)) ?st request =
             execute_request srv (depth - Suc n)
               (?st\<lparr>calls := calls ?st @ [request], slept := slept ?st + 100\<rparr>) request"
    by (rule execute_request_429)
  moreover have "?st\<lparr>calls := calls ?st @ [request], slept := slept ?st + 100\<rparr> =
                 st\<lparr>calls := calls st @ replicate (Suc n) request,
                    slept := slept st + 100 * Suc n\<rparr>"
    by (simp add: replicate_append_same)
  moreover have "execute_request srv depth st request =
                 execute_request srv (depth - n) ?st request"
    using Suc.IH Suc.prems by simp
  ultimately show ?case
    by (simp only: d)
qed

lemma execute_request_exhausted:
  assumes "\<forall>k\<le>depth. rate_limited (srv (calls st @ replicate k request) request)"
  shows "execute_request srv depth st request =
           (Inl RecursionError,
            st\<lparr>calls := calls st @ replicate (Suc depth) request,
               slept := slept st + 100 * Suc depth\<rparr>)"
proof -
  let ?st = "st\<lparr>calls := calls st @ replicate depth request, slept := slept st + 100 * depth\<rparr>"
  from assms have "\<forall>k<depth. rate_limited (srv (calls st @ replicate k request) request)"
    by simp
  then have "execute_request srv depth st request = execute_request srv (depth - depth) ?st request"
    by (rule execute_request_retries) simp
  moreover from assms have "rate_limited (srv (calls ?st) request)"
    by simp
  then have "execute_request srv 0 ?st request =
             (Inl RecursionError, ?st\<lparr>calls := calls ?st @ [request], slept := slept ?st + 100\<rparr>)"
    by (rule execute_request_429_no_room)
  ultimately show ?thesis
    by (simp add: replicate_append_same)
qed

lemma execute_request_frame:
  "\<exists>n m. snd (execute_request srv depth st request) =
           st\<lparr>calls := calls st @ replicate (Suc n) request, slept := slept st + 100 * m\<rparr>"
proof (induction srv depth st request rule: execute_request.induct)
  case (1 srv depth st request)
  have one: "\<exists>n m. st\<lparr>calls := calls st @ [request]\<rparr> =
               st\<lparr>calls := calls st @ replicate (Suc n) request, slept := slept st + 100 * m\<rparr>"
    by (rule exI [of _ 0], rule exI [of _ 0]) simp
  show ?case
  proof (cases "rate_limited (srv (calls st) request)")
    case False
    then have "snd (execute_request srv depth st request) = st\<lparr>calls := calls st @ [request]\<rparr>"
      by (subst execute_request.simps) (simp add: rate_limited_def split: outcome.splits)
    with one show ?thesis by simp
  next
    case True
    then obtain e where e: "srv (calls st) request = RaisesHttpError e" "status e = ''429''"
      by (auto simp: rate_limited_def split: outcome.splits)
    let ?s1 = "st\<lparr>calls := calls st @ [request], slept := slept st + 100\<rparr>"
    show ?thesis
    proof (cases depth)
      case 0
      with True have "snd (execute_request srv depth st request) = ?s1"
        by (simp add: execute_request_429_no_room)
      moreover have "?s1 = st\<lparr>calls := calls st @ replicate (Suc 0) request,
                              slept := slept st + 100 * 1\<rparr>"
        by simp
      ultimately show ?thesis by metis
    next
      case (Suc d)
      from "1.IH" [OF e Suc] obtain n m where
        "snd (execute_request srv d ?s1 request) =
           ?s1\<lparr>calls := calls ?s1 @ replicate (Suc n) request, slept := slept ?s1 + 100 * m\<rparr>"
        by blast
      then have "snd (execute_request srv d ?s1 request) =
           st\<lparr>calls := calls st @ replicate (Suc (Suc n)) request,
              slept := slept st + 100 * Suc m\<rparr>"
        by (simp add: replicate_append_same)
      moreover from True Suc have "execute_request srv depth st request =
                                   execute_request srv d ?s1 request"
        by (simp add: execute_request_429)
      ultimately show ?thesis by metis
    qed
  qed
qed

lemma execute_request_raises:
  "execute_request srv depth st request = (Inl x, st') \<Longrightarrow>
   x = RecursionError \<or> (\<exists>e. x = HttpErrorExn e \<and> status e \<noteq> ''429'') \<or> (\<exists>s. x = OtherExn s)"
proof (induction srv depth st request rule: execute_request.induct)
  case (1 srv depth st request)
  show ?case
  proof (cases "srv (calls st) request")
    case (Returns response)
    with "1.prems" show ?thesis
      by (simp add: execute_request_Returns)
  next
    case (RaisesOther s)
    with "1.prems" show ?thesis
      by (auto simp: execute_request_Other)
  next
    case (RaisesHttpError e)
    show ?thesis
    proof (cases "status e = ''429''")
      case False
      with RaisesHttpError "1.prems" show ?thesis
        by (auto simp: execute_request_HttpError)
    next
      case True
      with RaisesHttpError have rl: "rate_limited (srv (calls st) request)"
        by (simp add: rate_limited_def)
      show ?thesis
      proof (cases depth)
        case 0
        with rl "1.prems" show ?thesis
          by (simp add: execute_request_429_no_room)
      next
        case (Suc d)
        with rl "1.prems" have "execute_request srv d
            (st\<lparr>calls := calls st @ [request], slept := slept st + 100\<rparr>) request = (Inl x, st')"
          by (simp add: execute_request_429)
        with "1.IH" [OF RaisesHttpError True Suc] show ?thesis .
      qed
    qed
  qed
qed

section \<open>The range pair extractor\<close>

text \<open>
  C9. For a task row of length \<open>L \<ge> 5\<close> with \<open>L - 5\<close> even,
  \<^verbatim>\<open>get_source_destination_range_pairs\<close> returns (without raising) the
  \<open>(L - 5) div 2\<close> pairs whose \<open>k\<close>-th element has the source range
  \<open>row[5 + 2k]\<close> and the destination range \<open>row[6 + 2k]\<close>. The result is a
  function of the row alone, so two calls on the same row give the same list.
\<close>

theorem get_source_destination_range_pairs_positions:
  assumes "5 \<le> length row" and "even (length row - 5)"
  shows "get_source_destination_range_pairs row =
           Inr (map (\<lambda>k. \<lparr>source_range = row ! (5 + 2 * k),
                             destination_range = row ! (6 + 2 * k)\<rparr>)
                    [0..<(length row - 5) div 2])"
  using assms by (rule pairs_of_row)

text \<open>
  C9, at the row \<open>example_task\<close>.
\<close>

theorem get_source_destination_range_pairs_positions_witness:
  "5 \<le> length example_task \<and> even (length example_task - 5) \<and>
   get_source_destination_range_pairs example_task =
     Inr [\<lparr>source_range = ''A1:A2'', destination_range = ''B1:B2''\<rparr>]"
proof -
  have h1: "5 \<le> length example_task" and h2: "even (length example_task - 5)"
    by (simp_all add: example_task_def)
  have n: "(length example_task - 5) div 2 = Suc 0"
    by (simp add: example_task_def)
  show ?thesis
    using h1 h2 get_source_destination_range_pairs_positions [OF h1 h2]
    by (simp add: n) (simp add: example_task_def)
qed

section \<open>The request executor\<close>

text \<open>
  C4 as stated fails: the retry is not indefinite. On a service that answers
  every attempt with 429, with room for 1000 nested activations (the whole
  default recursion limit of CPython), the call made after the last sleep
  raises \<^verbatim>\<open>RecursionError\<close>, which nothing in the class catches.
\<close>

theorem recursion_limit_ends_retry:
  "fst (execute_request quota_always 1000 (init ''cfg'') example_request) = Inl RecursionError \<and>
   calls (snd (execute_request quota_always 1000 (init ''cfg'') example_request)) =
     replicate (Suc 1000) example_request \<and>
   slept (snd (execute_request quota_always 1000 (init ''cfg'') example_request)) = 100100"
proof -
  have "\<forall>k\<le>1000. rate_limited
          (quota_always (calls (init ''cfg'') @ replicate k example_request) example_request)"
    by (simp add: quota_always_def rate_limited_def)
  then have "execute_request quota_always 1000 (init ''cfg'') example_request =
        (Inl RecursionError,
         (init ''cfg'')\<lparr>calls := calls (init ''cfg'') @ replicate (Suc 1000) example_request,
                        slept := slept (init ''cfg'') + 100 * Suc 1000\<rparr>)"
    by (rule execute_request_exhausted)
  then show ?thesis
    by (simp add: init_def del: replicate.simps)
qed

text \<open>
  C4, amended. \<^verbatim>\<open>execute_request\<close>, for one remote operation: after any number
  \<open>n\<close> of rate-limited (status 429) attempts that the recursion limit leaves room
  for (\<open>n \<le> depth\<close>), it has slept \<open>100\<close> for each of them and executes the same
  request again; when that attempt succeeds its response is returned unchanged,
  when it fails otherwise the failure is raised unchanged. One 429 followed by
  a success gives the caller the same value as a success at once.
\<close>

theorem execute_request_policy:
  "((\<forall>k<n. rate_limited (srv (calls st @ replicate k request) request)) \<and> n \<le> depth \<and>
    srv (calls st @ replicate n request) request = Returns response \<longrightarrow>
    execute_request srv depth st request =
      (Inr response,
       st\<lparr>calls := calls st @ replicate (Suc n) request, slept := slept st + 100 * n\<rparr>)) \<and>
   ((\<forall>k<n. rate_limited (srv (calls st @ replicate k request) request)) \<and> n \<le> depth \<and>
    srv (calls st @ replicate n request) request = RaisesHttpError e \<and> status e \<noteq> ''429'' \<longrightarrow>
    execute_request srv depth st request =
      (Inl (HttpErrorExn e),
       st\<lparr>calls := calls st @ replicate (Suc n) request, slept := slept st + 100 * n\<rparr>)) \<and>
   ((\<forall>k<n. rate_limited (srv (calls st @ replicate k request) request)) \<and> n \<le> depth \<and>
    srv (calls st @ replicate n request) request = RaisesOther x \<longrightarrow>
    execute_request srv depth st request =
      (Inl (OtherExn x),
       st\<lparr>calls := calls st @ replicate (Suc n) request, slept := slept st + 100 * n\<rparr>)) \<and>
   (rate_limited (srv (calls st) request) \<and> 0 < depth \<and>
    srv (calls st @ [request]) request = Returns response \<and>
    srv' (calls st) request = Returns response \<longrightarrow>
    fst (execute_request srv depth st request) = fst (execute_request srv' depth st request))"
proof -
  let ?st = "st\<lparr>calls := calls st @ replicate n request, slept := slept st + 100 * n\<rparr>"
  let ?st' = "st\<lparr>calls := calls st @ replicate (Suc n) request, slept := slept st + 100 * n\<rparr>"
  have fin: "?st\<lparr>calls := calls ?st @ [request]\<rparr> = ?st'"
    by (simp add: replicate_append_same)
  have A: "execute_request srv depth st request = (Inr response, ?st')"
    if "\<forall>k<n. rate_limited (srv (calls st @ replicate k request) request)" and "n \<le> depth"
      and "srv (calls st @ replicate n request) request = Returns response"
  proof -
    from that(3) have "srv (calls ?st) request = Returns response" by simp
    then have "execute_request srv (depth - n) ?st request = (Inr response, ?st')"
      using execute_request_Returns [of srv ?st request response "depth - n"] fin by simp
    with execute_request_retries [of n srv st request depth] that(1,2)
    show ?thesis by simp
  qed
  have B: "execute_request srv depth st request = (Inl (HttpErrorExn e), ?st')"
    if "\<forall>k<n. rate_limited (srv (calls st @ replicate k request) request)" and "n \<le> depth"
      and "srv (calls st @ replicate n request) request = RaisesHttpError e"
      and "status e \<noteq> ''429''"
  proof -
    from that(3) have "srv (calls ?st) request = RaisesHttpError e" by simp
    then have "execute_request srv (depth - n) ?st request = (Inl (HttpErrorExn e), ?st')"
      using execute_request_HttpError [of srv ?st request e "depth - n"] that(4) fin by simp
    with execute_request_retries [of n srv st request depth] that(1,2)
    show ?thesis by simp
  qed
  have C: "execute_request srv depth st request = (Inl (OtherExn x), ?st')"
    if "\<forall>k<n. rate_limited (srv (calls st @ replicate k request) request)" and "n \<le> depth"
      and "srv (calls st @ replicate n request) request = RaisesOther x"
  proof -
    from that(3) have "srv (calls ?st) request = RaisesOther x" by simp
    then have "execute_request srv (depth - n) ?st request = (Inl (OtherExn x), ?st')"
      using execute_request_Other [of srv ?st request x "depth - n"] fin by simp
    with execute_request_retries [of n srv st request depth] that(1,2)
    show ?thesis by simp
  qed
  have E: "fst (execute_request srv depth st request) = fst (execute_request srv' depth st request)"
    if "rate_limited (srv (calls st) request)" and "0 < depth"
      and "srv (calls st @ [request]) request = Returns response"
      and "srv' (calls st) request = Returns response"
  proof -
    let ?s1 = "st\<lparr>calls := calls st @ [request], slept := slept st + 100\<rparr>"
    from that(2) obtain d where d: "depth = Suc d"
      by (cases depth) auto
    from that(3) have "srv (calls ?s1) request = Returns response" by simp
    then have "execute_request srv d ?s1 request =
               (Inr response, ?s1\<lparr>calls := calls ?s1 @ [request]\<rparr>)"
      by (rule execute_request_Returns)
    with execute_request_429 [of srv st request d] that(1) d
    have "fst (execute_request srv depth st request) = Inr response"
      by simp
    moreover from that(4) have "execute_request srv' depth st request =
          (Inr response, st\<lparr>calls := calls st @ [request]\<rparr>)"
      by (rule execute_request_Returns)
    then have "fst (execute_request srv' depth st request) = Inr response"
      by simp
    ultimately show ?thesis by (simp only:)
  qed
  from A B C E show ?thesis by blast
qed

text \<open>
  C4 amended, at four services: one 429 and then a success, a status 500, a
  failure that is no \<^verbatim>\<open>HttpError\<close>, and a success at once.
\<close>

theorem execute_request_policy_witness:
  "execute_request quota_once 5 (init ''cfg'') example_request =
     (Inr example_values,
      (init ''cfg'')\<lparr>calls := [example_request, example_request], slept := 100\<rparr>) \<and>
   execute_request server_error 5 (init ''cfg'') example_request =
     (Inl (HttpErrorExn (HttpError ''500'' ''backend error'')),
      (init ''cfg'')\<lparr>calls := [example_request]\<rparr>) \<and>
   execute_request connection_lost 5 (init ''cfg'') example_request =
     (Inl (OtherExn ''connection reset''), (init ''cfg'')\<lparr>calls := [example_request]\<rparr>) \<and>
   fst (execute_request quota_once 5 (init ''cfg'') example_request) =
   fst (execute_request no_failures 5 (init ''cfg'') example_request)"
proof -
  let ?st = "init ''cfg''"
  let ?r = "example_request"
  have c: "calls ?st = []" and s: "slept ?st = 0"
    by (simp_all add: init_def)
  have q: "rate_limited (quota_once [] ?r)" "quota_once [?r] ?r = Returns example_values"
    by (simp_all add: quota_once_def rate_limited_def)
  have w1: "execute_request quota_once 5 ?st ?r =
           (Inr example_values, ?st\<lparr>calls := [?r, ?r], slept := 100\<rparr>)"
    using execute_request_policy
      [where n = "Suc 0" and srv = quota_once and st = ?st and request = ?r
         and response = example_values and depth = 5] q
    by (simp add: c s)
  have w2: "execute_request server_error 5 ?st ?r =
           (Inl (HttpErrorExn (HttpError ''500'' ''backend error'')), ?st\<lparr>calls := [?r]\<rparr>)"
    using execute_request_policy
      [where n = 0 and srv = server_error and st = ?st and request = ?r and depth = 5
         and e = "HttpError ''500'' ''backend error''"]
    by (simp add: c s server_error_def)
  have w3: "execute_request connection_lost 5 ?st ?r =
           (Inl (OtherExn ''connection reset''), ?st\<lparr>calls := [?r]\<rparr>)"
    using execute_request_policy
      [where n = 0 and srv = connection_lost and st = ?st and request = ?r and depth = 5
         and x = "''connection reset''"]
    by (simp add: c s connection_lost_def)
  have w5: "fst (execute_request quota_once 5 ?st ?r) =
            fst (execute_request no_failures 5 ?st ?r)"
    using execute_request_policy
      [where n = 0 and srv = quota_once and st = ?st and request = ?r and depth = 5
         and response = example_values and srv' = no_failures] q
    by (simp add: c no_failures_def)
  from w1 w2 w3 w5 show ?thesis by blast
qed

section \<open>What the task processor leaves unchanged\<close>

lemma same_config_refl: "same_config st st"
  by (simp add: same_config_def)

lemma same_config_trans: "same_config a b \<Longrightarrow> same_config b c \<Longrightarrow> same_config a c"
  by (simp add: same_config_def)

lemma same_config_add_error: "same_config st (add_error st m)"
  by (simp add: same_config_def add_error_def)

lemma execute_request_same_config:
  assumes "execute_request srv depth st request = (r, st')"
  shows "same_config st st' \<and> errors st' = errors st"
proof -
  from execute_request_frame [of srv depth st request] assms obtain n m where
    "st' = st\<lparr>calls := calls st @ replicate (Suc n) request, slept := slept st + 100 * m\<rparr>"
    by auto
  then show ?thesis
    by (simp add: same_config_def)
qed

lemma execute_request_or_log_error_same_config:
  assumes "execute_request_or_log_error srv depth st request msg = (r, st')"
  shows "same_config st st'"
proof -
  obtain r1 st1 where y: "execute_request srv depth st request = (r1, st1)"
    by (cases "execute_request srv depth st request")
  then have sc: "same_config st st1"
    by (simp add: execute_request_same_config)
  from assms y have "st' = st1 \<or> (\<exists>m. st' = add_error st1 m)"
    by (auto simp: execute_request_or_log_error_def split: sum.splits exn.splits)
  with sc show ?thesis
    by (auto simp: same_config_def add_error_def)
qed

lemma copy_pair_same_config:
  assumes "copy_pair srv depth st task p = (r, st')"
  shows "same_config st st'"
  using assms
  by (auto simp: copy_pair_def same_config_refl
      split: sum.splits option.splits prod.splits
      dest!: execute_request_or_log_error_same_config
      intro: same_config_trans)

lemma copy_pairs_same_config:
  "copy_pairs srv depth st task ps = (r, st') \<Longrightarrow> same_config st st'"
proof (induction ps arbitrary: st)
  case Nil
  then show ?case by (simp add: same_config_refl)
next
  case (Cons p ps)
  then show ?case
    by (auto split: sum.splits prod.splits
        dest!: copy_pair_same_config intro: same_config_trans)
qed

lemma process_task_same_config:
  "process_task srv depth st task = (r, st') \<Longrightarrow> same_config st st'"
  by (auto simp: process_task_def same_config_refl same_config_add_error
      split: sum.splits if_splits dest: copy_pairs_same_config)

lemma process_task_list_same_config:
  "process_task_list srv depth st ts = (r, st') \<Longrightarrow> same_config st st'"
proof (induction ts arbitrary: st)
  case Nil
  then show ?case by (simp add: same_config_refl)
next
  case (Cons t ts)
  then show ?case
    by (auto split: sum.splits prod.splits
        dest!: process_task_same_config intro: same_config_trans)
qed

section \<open>The task processor\<close>

lemma process_task_list_append:
  "process_task_list srv depth st (xs @ ys) =
     (case process_task_list srv depth st xs of
        (Inl x, st') \<Rightarrow> (Inl x, st')
      | (Inr u, st') \<Rightarrow> process_task_list srv depth st' ys)"
  by (induction xs arbitrary: st) (auto split: sum.splits prod.splits)

text \<open>
  C2. A task row whose cell at the Enable column is not exactly \<open>''TRUE''\<close>
  is skipped: the state is unchanged (no call is logged, no error is added),
  whatever else the row holds, and the loop goes on with the next row.
\<close>

theorem disabled_task_skipped:
  assumes "enable_index st = Some e" and "e < length task" and "task ! e \<noteq> ''TRUE''"
  shows "process_task srv depth st task = (Inr (), st) \<and>
         process_task_list srv depth st (task # rest) = process_task_list srv depth st rest"
  using assms by (simp add: process_task_def subscript_def)

text \<open>
  C2, at the row \<open>disabled_task\<close>, whose Enable cell is \<open>''FALSE''\<close>.
\<close>

theorem disabled_task_skipped_witness:
  "enable_index configured = Some 3 \<and> 3 < length disabled_task \<and>
   disabled_task ! 3 \<noteq> ''TRUE'' \<and>
   process_task no_failures 5 configured disabled_task = (Inr (), configured) \<and>
   process_task_list no_failures 5 configured [disabled_task] = (Inr (), configured)"
proof -
  have h: "enable_index configured = Some 3" "3 < length disabled_task"
    "disabled_task ! 3 \<noteq> ''TRUE''"
    by (simp_all add: configured_def disabled_task_def)
  from disabled_task_skipped [OF h, of no_failures 5 "[]"] h
  show ?thesis by simp
qed

text \<open>
  C3 as stated fails: a row with \<open>length - 5\<close> odd whose Enable cell is not
  \<open>''TRUE''\<close> adds no error record.
\<close>

theorem odd_disabled_task_no_error:
  "(int (length odd_disabled_task) - 5) mod 2 \<noteq> 0 \<and>
   process_task no_failures 5 configured odd_disabled_task = (Inr (), configured) \<and>
   errors configured = []"
  by (simp add: odd_disabled_task_def configured_def process_task_def subscript_def)

text \<open>
  C3, amended. An enabled task row with \<open>length - 5\<close> odd whose ID column lies in
  the row adds exactly one error record, which names the ID cell, makes no
  remote call, and the loop goes on with the next row.
\<close>

theorem odd_task_error:
  assumes "enable_index st = Some e" and "e < length task" and "task ! e = ''TRUE''"
    and "(int (length task) - 5) mod 2 \<noteq> 0"
    and "task_id_index st = Some i" and "i < length task"
  shows "process_task srv depth st task =
           (Inr (), st\<lparr>errors := errors st @
             [[''Task '' @ task ! i @
               '' is not configured properly. Check source and destination pair.'']]\<rparr>) \<and>
         process_task_list srv depth st (task # rest) =
           process_task_list srv depth
             (st\<lparr>errors := errors st @
               [[''Task '' @ task ! i @
                 '' is not configured properly. Check source and destination pair.'']]\<rparr>) rest"
  using assms by (simp add: process_task_def subscript_def add_error_def)

text \<open>
  C3 amended, at the row \<open>odd_task\<close>.
\<close>

theorem odd_task_error_witness:
  "enable_index configured = Some 3 \<and> 3 < length odd_task \<and> odd_task ! 3 = ''TRUE'' \<and>
   (int (length odd_task) - 5) mod 2 \<noteq> 0 \<and>
   task_id_index configured = Some 0 \<and> 0 < length odd_task \<and>
   process_task no_failures 5 configured odd_task =
     (Inr (), configured\<lparr>errors :=
       [[''Task T2 is not configured properly. Check source and destination pair.'']]\<rparr>)"
proof -
  have h: "enable_index configured = Some 3" "3 < length odd_task" "odd_task ! 3 = ''TRUE''"
    "(int (length odd_task) - 5) mod 2 \<noteq> 0"
    "task_id_index configured = Some 0" "0 < length odd_task"
    by (simp_all add: configured_def odd_task_def)
  have e: "errors configured = []" and i: "odd_task ! 0 = ''T2''"
    by (simp_all add: configured_def odd_task_def)
  from odd_task_error [OF h, of no_failures 5 "[]"] h
  show ?thesis by (simp add: e i)
qed

text \<open>
  C10. A task row whose length is at most the Enable column index makes the
  subscript of the Enable cell raise IndexError. Nothing catches it: the rows
  after it are not processed, and \<^verbatim>\<open>run\<close> ends with that exception in the state
  the earlier rows left, so \<^verbatim>\<open>handle_errors\<close> is never reached.
\<close>

theorem short_row_aborts_run:
  "(enable_index st = Some e \<and> length task \<le> e \<longrightarrow>
      process_task_list srv depth st (task # rest) = (Inl IndexError, st)) \<and>
   (fetch_config_data srv depth st0 = (Inr (), st1) \<and>
    tasks st1 = earlier @ task # rest \<and>
    process_task_list srv depth st1 earlier = (Inr (), st2) \<and>
    enable_index st1 = Some e \<and> length task \<le> e \<longrightarrow>
      run srv depth st0 = (Inl IndexError, st2))"
proof -
  have A: "process_task_list srv depth st (task # rest) = (Inl IndexError, st)"
    if "enable_index st = Some e" and "length task \<le> e" for st
    using that by (simp add: process_task_def subscript_def)
  have B: "run srv depth st0 = (Inl IndexError, st2)"
    if f: "fetch_config_data srv depth st0 = (Inr (), st1)"
      and t: "tasks st1 = earlier @ task # rest"
      and p: "process_task_list srv depth st1 earlier = (Inr (), st2)"
      and e: "enable_index st1 = Some e" and l: "length task \<le> e"
  proof -
    from p have "same_config st1 st2"
      by (rule process_task_list_same_config)
    with e have "enable_index st2 = Some e"
      by (simp add: same_config_def)
    from A [OF this l] have "process_task_list srv depth st2 (task # rest) = (Inl IndexError, st2)" .
    with p have "process_task_list srv depth st1 (earlier @ task # rest) = (Inl IndexError, st2)"
      by (simp add: process_task_list_append)
    with t have "process_tasks srv depth st1 = (Inl IndexError, st2)"
      by (simp add: process_tasks_def)
    with f show ?thesis
      by (simp add: run_def)
  qed
  from A B show ?thesis by blast
qed

lemma fetch_empty_row:
  "fetch_config_data empty_row_service 5 (init ''cfg'') =
     (Inr (), after_empty_row\<lparr>errors := []\<rparr>)"
proof -
  have "execute_request empty_row_service (Suc 5) (init ''cfg'')
          (ValuesGet ''cfg'' ''Configuration!A1:Z50'' ''ROWS'' None) =
        (Inr config_with_empty_row,
         (init ''cfg'')\<lparr>calls := calls (init ''cfg'') @
            [ValuesGet ''cfg'' ''Configuration!A1:Z50'' ''ROWS'' None]\<rparr>)"
    by (rule execute_request_Returns) (simp add: empty_row_service_def)
  then show ?thesis
    by (simp add: fetch_config_data_def config_with_empty_row_def example_header_def
        init_def configuration_range_def after_empty_row_def)
qed

text \<open>
  C10, at a configuration whose second task row is empty: the error recorded for
  the first row is still in the state and the only call made is the
  configuration fetch.
\<close>

theorem short_row_aborts_run_witness:
  "run empty_row_service 5 (init ''cfg'') = (Inl IndexError, after_empty_row) \<and>
   process_task_list empty_row_service 5 after_empty_row ([] # [example_task]) =
     (Inl IndexError, after_empty_row)"
proof -
  let ?st1 = "after_empty_row\<lparr>errors := []\<rparr>"
  have t: "tasks ?st1 = [odd_task] @ [] # [example_task]"
    by (simp add: after_empty_row_def)
  have p: "process_task_list empty_row_service 5 ?st1 [odd_task] = (Inr (), after_empty_row)"
    by (simp add: process_task_def subscript_def after_empty_row_def odd_task_def add_error_def)
  have e: "enable_index ?st1 = Some 3" "enable_index after_empty_row = Some 3"
    by (simp_all add: after_empty_row_def)
  show ?thesis
    using short_row_aborts_run
      [where st = after_empty_row and e = 3 and task = "[]" and srv = empty_row_service
         and depth = 5 and rest = "[example_task]" and ?st0.0 = "init ''cfg''"
         and ?st1.0 = ?st1 and earlier = "[odd_task]" and ?st2.0 = after_empty_row]
      fetch_empty_row t p e
    by simp
qed

section \<open>Copying the range pairs of a task\<close>

lemma copy_pair_read_raises:
  assumes "source_sheet_index st = Some s" and "s < length task"
    and "task_id_index st = Some i" and "i < length task"
    and "execute_request srv depth st
           (ValuesGet (task ! s) (source_range p) ''ROWS'' (Some ''UNFORMATTED_VALUE'')) =
         (Inl (HttpErrorExn e), st2)"
  shows "copy_pair srv depth st task p =
     (Inr (), st2\<lparr>errors := errors st2 @
                [[''Failed to fetch data for task '' @ task ! i @ '': '' @ detail e]]\<rparr>)"
  using assms
  by (simp add: copy_pair_def subscript_def execute_request_or_log_error_def add_error_def
      del: append.simps)

lemma copy_pair_write_raises:
  assumes "source_sheet_index st = Some s" and "s < length task"
    and "task_id_index st = Some i" and "i < length task"
    and "destination_sheet_index st = Some d" and "d < length task"
    and r: "execute_request srv depth st
           (ValuesGet (task ! s) (source_range p) ''ROWS'' (Some ''UNFORMATTED_VALUE'')) =
         (Inr response, st2)"
    and w: "execute_request srv depth st2
           (ValuesUpdate (task ! d) (destination_range p) ''RAW''
              (response\<lparr>vr_range := Some (destination_range p)\<rparr>)) =
         (Inl (HttpErrorExn e), st3)"
  shows "copy_pair srv depth st task p =
     (Inr (), st3\<lparr>errors := errors st3 @
                [[''Failed to write data for task '' @ task ! i @ '': '' @ detail e]]\<rparr>)"
proof -
  from r have "same_config st st2"
    by (simp add: execute_request_same_config)
  with assms(3,5) have "task_id_index st2 = Some i" "destination_sheet_index st2 = Some d"
    by (simp_all add: same_config_def)
  with assms show ?thesis
    by (simp add: copy_pair_def subscript_def execute_request_or_log_error_def add_error_def
        del: append.simps)
qed

lemma copy_pair_succeeds:
  assumes "source_sheet_index st = Some s" and "s < length task"
    and "task_id_index st = Some i" and "i < length task"
    and "destination_sheet_index st = Some d" and "d < length task"
    and r: "srv (calls st)
           (ValuesGet (task ! s) (source_range p) ''ROWS'' (Some ''UNFORMATTED_VALUE'')) =
         Returns response"
    and w: "srv (calls st @
             [ValuesGet (task ! s) (source_range p) ''ROWS'' (Some ''UNFORMATTED_VALUE'')])
           (ValuesUpdate (task ! d) (destination_range p) ''RAW''
              (response\<lparr>vr_range := Some (destination_range p)\<rparr>)) =
         Returns ack"
  shows "copy_pair srv depth st task p =
     (Inr (), st\<lparr>calls := calls st @
        [ValuesGet (task ! s) (source_range p) ''ROWS'' (Some ''UNFORMATTED_VALUE''),
         ValuesUpdate (task ! d) (destination_range p) ''RAW''
           (response\<lparr>vr_range := Some (destination_range p)\<rparr>)]\<rparr>)"
proof -
  let ?R = "ValuesGet (task ! s) (source_range p) ''ROWS'' (Some ''UNFORMATTED_VALUE'')"
  let ?W = "ValuesUpdate (task ! d) (destination_range p) ''RAW''
              (response\<lparr>vr_range := Some (destination_range p)\<rparr>)"
  let ?st2 = "st\<lparr>calls := calls st @ [?R]\<rparr>"
  from r have 1: "execute_request srv depth st ?R = (Inr response, ?st2)"
    by (rule execute_request_Returns)
  from w have "srv (calls ?st2) ?W = Returns ack"
    by simp
  then have 2: "execute_request srv depth ?st2 ?W = (Inr ack, ?st2\<lparr>calls := calls ?st2 @ [?W]\<rparr>)"
    by (rule execute_request_Returns)
  from assms(1-6) 1 2 show ?thesis
    by (simp add: copy_pair_def subscript_def execute_request_or_log_error_def
        del: append.simps)
qed

lemma copy_pairs_append:
  "copy_pairs srv depth st task (ps @ qs) =
     (case copy_pairs srv depth st task ps of
        (Inl x, st') \<Rightarrow> (Inl x, st')
      | (Inr u, st') \<Rightarrow> copy_pairs srv depth st' task qs)"
  by (induction ps arbitrary: st) (auto split: sum.splits prod.splits)

lemma process_task_enabled:
  assumes "enable_index st = Some e" and "e < length task" and "task ! e = ''TRUE''"
    and "(int (length task) - 5) mod 2 = 0"
    and "get_source_destination_range_pairs task = Inr pairs"
  shows "process_task srv depth st task = copy_pairs srv depth st task pairs"
  using assms by (simp add: process_task_def subscript_def)

text \<open>
  C5. In an enabled task whose \<open>length - 5\<close> is even, let the pairs before \<open>p\<close>
  have been copied, leaving the state \<open>st1\<close>. When \<^verbatim>\<open>execute_request\<close> raises an
  \<^verbatim>\<open>HttpError\<close> for the read of \<open>p\<close> (at the first attempt or after 429 retries;
  its status is never 429), one error record with the task's ID and the text of
  the failure is added, only the read has been sent, no write is made for \<open>p\<close>,
  and processing goes on with the pairs after \<open>p\<close> and then with the remaining
  tasks. When the read returns and \<^verbatim>\<open>execute_request\<close> raises an \<^verbatim>\<open>HttpError\<close>
  for the write, one error record is added likewise and processing goes on in
  the same way.
\<close>

theorem pair_failure_logged_and_skipped:
  assumes "enable_index st = Some e" and "e < length task" and "task ! e = ''TRUE''"
    and "(int (length task) - 5) mod 2 = 0"
    and "source_sheet_index st = Some s" and "s < length task"
    and "destination_sheet_index st = Some d" and "d < length task"
    and "task_id_index st = Some i" and "i < length task"
    and "get_source_destination_range_pairs task = Inr (before @ p # after)"
    and "copy_pairs srv depth st task before = (Inr (), st1)"
  shows
    "(execute_request srv depth st1
        (ValuesGet (task ! s) (source_range p) ''ROWS'' (Some ''UNFORMATTED_VALUE'')) =
      (Inl (HttpErrorExn err), st2) \<longrightarrow>
      status err \<noteq> ''429'' \<and>
      (\<exists>n. calls st2 = calls st1 @ replicate (Suc n)
              (ValuesGet (task ! s) (source_range p) ''ROWS'' (Some ''UNFORMATTED_VALUE''))) \<and>
      process_task_list srv depth st (task # rest) =
        (case copy_pairs srv depth
                (st2\<lparr>errors := errors st1 @
                       [[''Failed to fetch data for task '' @ task ! i @ '': '' @ detail err]]\<rparr>)
                task after of
           (Inl x, st') \<Rightarrow> (Inl x, st')
         | (Inr u, st') \<Rightarrow> process_task_list srv depth st' rest)) \<and>
     (execute_request srv depth st1
        (ValuesGet (task ! s) (source_range p) ''ROWS'' (Some ''UNFORMATTED_VALUE'')) =
      (Inr response, st2) \<and>
      execute_request srv depth st2
        (ValuesUpdate (task ! d) (destination_range p) ''RAW''
           (response\<lparr>vr_range := Some (destination_range p)\<rparr>)) =
      (Inl (HttpErrorExn err), st3) \<longrightarrow>
      status err \<noteq> ''429'' \<and>
      process_task_list srv depth st (task # rest) =
        (case copy_pairs srv depth
                (st3\<lparr>errors := errors st1 @
                       [[''Failed to write data for task '' @ task ! i @ '': '' @ detail err]]\<rparr>)
                task after of
           (Inl x, st') \<Rightarrow> (Inl x, st')
         | (Inr u, st') \<Rightarrow> process_task_list srv depth st' rest))"
proof -
  let ?R = "ValuesGet (task ! s) (source_range p) ''ROWS'' (Some ''UNFORMATTED_VALUE'')"
  let ?W = "ValuesUpdate (task ! d) (destination_range p) ''RAW''
              (response\<lparr>vr_range := Some (destination_range p)\<rparr>)"
  from assms(12) have "same_config st st1"
    by (rule copy_pairs_same_config)
  with assms have idx: "source_sheet_index st1 = Some s" "destination_sheet_index st1 = Some d"
    "task_id_index st1 = Some i"
    by (simp_all add: same_config_def)
  have task: "process_task srv depth st task = copy_pairs srv depth st task (before @ p # after)"
    using assms by (simp add: process_task_enabled)
  have split: "copy_pairs srv depth st task (before @ p # after) =
               (case copy_pair srv depth st1 task p of
                  (Inl x, st') \<Rightarrow> (Inl x, st')
                | (Inr u, st') \<Rightarrow> copy_pairs srv depth st' task after)"
    using assms(12) by (simp add: copy_pairs_append)
  have A: "status err \<noteq> ''429'' \<and>
      (\<exists>n. calls st2 = calls st1 @ replicate (Suc n) ?R) \<and>
      process_task_list srv depth st (task # rest) =
        (case copy_pairs srv depth
                (st2\<lparr>errors := errors st1 @
                       [[''Failed to fetch data for task '' @ task ! i @ '': '' @ detail err]]\<rparr>)
                task after of
           (Inl x, st') \<Rightarrow> (Inl x, st')
         | (Inr u, st') \<Rightarrow> process_task_list srv depth st' rest)"
    if r: "execute_request srv depth st1 ?R = (Inl (HttpErrorExn err), st2)"
  proof -
    from execute_request_raises [OF r] have 1: "status err \<noteq> ''429''"
      by auto
    from execute_request_frame [of srv depth st1 ?R] r
    have 2: "\<exists>n. calls st2 = calls st1 @ replicate (Suc n) ?R"
      by auto
    from r have e: "errors st2 = errors st1"
      by (simp add: execute_request_same_config)
    have "copy_pair srv depth st1 task p =
          (Inr (), st2\<lparr>errors := errors st2 @
                [[''Failed to fetch data for task '' @ task ! i @ '': '' @ detail err]]\<rparr>)"
      using idx(1) assms(6) idx(3) assms(10) r by (rule copy_pair_read_raises)
    with task split e have 3: "process_task_list srv depth st (task # rest) =
        (case copy_pairs srv depth
                (st2\<lparr>errors := errors st1 @
                       [[''Failed to fetch data for task '' @ task ! i @ '': '' @ detail err]]\<rparr>)
                task after of
           (Inl x, st') \<Rightarrow> (Inl x, st')
         | (Inr u, st') \<Rightarrow> process_task_list srv depth st' rest)"
      by (simp del: append.simps)
    from 1 2 3 show ?thesis by blast
  qed
  have B: "status err \<noteq> ''429'' \<and>
      process_task_list srv depth st (task # rest) =
        (case copy_pairs srv depth
                (st3\<lparr>errors := errors st1 @
                       [[''Failed to write data for task '' @ task ! i @ '': '' @ detail err]]\<rparr>)
                task after of
           (Inl x, st') \<Rightarrow> (Inl x, st')
         | (Inr u, st') \<Rightarrow> process_task_list srv depth st' rest)"
    if r: "execute_request srv depth st1 ?R = (Inr response, st2)"
      and w: "execute_request srv depth st2 ?W = (Inl (HttpErrorExn err), st3)"
  proof -
    from execute_request_raises [OF w] have 1: "status err \<noteq> ''429''"
      by auto
    from r w have e: "errors st3 = errors st1"
      by (simp add: execute_request_same_config)
    have "copy_pair srv depth st1 task p =
          (Inr (), st3\<lparr>errors := errors st3 @
                [[''Failed to write data for task '' @ task ! i @ '': '' @ detail err]]\<rparr>)"
      using idx(1) assms(6) idx(3) assms(10) idx(2) assms(8) r w
      by (rule copy_pair_write_raises)
    with task split e have 3: "process_task_list srv depth st (task # rest) =
        (case copy_pairs srv depth
                (st3\<lparr>errors := errors st1 @
                       [[''Failed to write data for task '' @ task ! i @ '': '' @ detail err]]\<rparr>)
                task after of
           (Inl x, st') \<Rightarrow> (Inl x, st')
         | (Inr u, st') \<Rightarrow> process_task_list srv depth st' rest)"
      by (simp del: append.simps)
    from 1 3 show ?thesis by blast
  qed
  from A B show ?thesis by blast
qed

lemma two_pair_task_pairs:
  "get_source_destination_range_pairs two_pair_task =
     Inr ([] @ \<lparr>source_range = ''A1:A2'', destination_range = ''B1:B2''\<rparr> #
          [\<lparr>source_range = ''C1:C2'', destination_range = ''D1:D2''\<rparr>])"
  by (simp add: get_source_destination_range_pairs_def range_pairs_from.simps two_pair_task_def)

lemma example_task_pairs:
  "get_source_destination_range_pairs example_task =
     Inr ([] @ \<lparr>source_range = ''A1:A2'', destination_range = ''B1:B2''\<rparr> # [])"
  by (simp add: get_source_destination_range_pairs_def range_pairs_from.simps example_task_def)

lemma first_read_fails_copy:
  assumes "calls st \<noteq> []"
    and "source_sheet_index st = Some s" and "s < length task"
    and "task_id_index st = Some i" and "i < length task"
    and "destination_sheet_index st = Some d" and "d < length task"
  shows "copy_pair first_read_fails depth st task p =
     (Inr (), st\<lparr>calls := calls st @
        [ValuesGet (task ! s) (source_range p) ''ROWS'' (Some ''UNFORMATTED_VALUE''),
         ValuesUpdate (task ! d) (destination_range p) ''RAW''
           (example_values\<lparr>vr_range := Some (destination_range p)\<rparr>)]\<rparr>)"
  using assms(2-7)
  by (rule copy_pair_succeeds) (simp_all add: first_read_fails_def assms(1))

text \<open>
  C5, at a service whose first call fails (the second pair of the task and the
  next task are still copied), at a service that answers the read with 429 and
  then with 500, and at a service that refuses every write.
\<close>

theorem pair_failure_logged_and_skipped_witness:
  "process_task_list first_read_fails 5 configured [two_pair_task, example_task] =
     (Inr (),
      configured\<lparr>calls :=
          [ValuesGet ''srcSheet'' ''A1:A2'' ''ROWS'' (Some ''UNFORMATTED_VALUE''),
           ValuesGet ''srcSheet'' ''C1:C2'' ''ROWS'' (Some ''UNFORMATTED_VALUE''),
           ValuesUpdate ''dstSheet'' ''D1:D2'' ''RAW''
             (example_values\<lparr>vr_range := Some ''D1:D2''\<rparr>),
           ValuesGet ''srcSheet'' ''A1:A2'' ''ROWS'' (Some ''UNFORMATTED_VALUE''),
           ValuesUpdate ''dstSheet'' ''B1:B2'' ''RAW''
             (example_values\<lparr>vr_range := Some ''B1:B2''\<rparr>)],
        errors := [[''Failed to fetch data for task T4: backend error'']]\<rparr>) \<and>
   process_task_list quota_then_error 5 configured [example_task] =
     (Inr (),
      configured\<lparr>calls :=
          [ValuesGet ''srcSheet'' ''A1:A2'' ''ROWS'' (Some ''UNFORMATTED_VALUE''),
           ValuesGet ''srcSheet'' ''A1:A2'' ''ROWS'' (Some ''UNFORMATTED_VALUE'')],
        slept := 100,
        errors := [[''Failed to fetch data for task T1: backend error'']]\<rparr>) \<and>
   process_task_list read_only_service 5 configured [example_task] =
     (Inr (),
      configured\<lparr>calls :=
          [ValuesGet ''srcSheet'' ''A1:A2'' ''ROWS'' (Some ''UNFORMATTED_VALUE''),
           ValuesUpdate ''dstSheet'' ''B1:B2'' ''RAW''
             (example_values\<lparr>vr_range := Some ''B1:B2''\<rparr>)],
        errors := [[''Failed to write data for task T1: forbidden'']]\<rparr>)"
proof -
  let ?p1 = "\<lparr>source_range = ''A1:A2'', destination_range = ''B1:B2''\<rparr>"
  let ?p2 = "\<lparr>source_range = ''C1:C2'', destination_range = ''D1:D2''\<rparr>"
  let ?R1 = "ValuesGet ''srcSheet'' ''A1:A2'' ''ROWS'' (Some ''UNFORMATTED_VALUE'')"
  let ?R2 = "ValuesGet ''srcSheet'' ''C1:C2'' ''ROWS'' (Some ''UNFORMATTED_VALUE'')"
  let ?W1 = "ValuesUpdate ''dstSheet'' ''B1:B2'' ''RAW''
               (example_values\<lparr>vr_range := Some ''B1:B2''\<rparr>)"
  let ?W2 = "ValuesUpdate ''dstSheet'' ''D1:D2'' ''RAW''
               (example_values\<lparr>vr_range := Some ''D1:D2''\<rparr>)"
  let ?sa = "configured\<lparr>calls := [?R1],
               errors := [[''Failed to fetch data for task T4: backend error'']]\<rparr>"
  let ?sb = "configured\<lparr>calls := [?R1, ?R2, ?W2],
               errors := [[''Failed to fetch data for task T4: backend error'']]\<rparr>"
  let ?sc = "configured\<lparr>calls := [?R1, ?R2, ?W2, ?R1, ?W1],
               errors := [[''Failed to fetch data for task T4: backend error'']]\<rparr>"
  have c: "enable_index configured = Some 3" "source_sheet_index configured = Some 1"
    "destination_sheet_index configured = Some 2" "task_id_index configured = Some 0"
    "calls configured = []" "errors configured = []" "slept configured = 0"
    by (simp_all add: configured_def)
  have t2: "3 < length two_pair_task" "two_pair_task ! 3 = ''TRUE''"
    "(int (length two_pair_task) - 5) mod 2 = 0" "1 < length two_pair_task"
    "2 < length two_pair_task" "0 < length two_pair_task"
    "two_pair_task ! 0 = ''T4''" "two_pair_task ! 1 = ''srcSheet''"
    "two_pair_task ! 2 = ''dstSheet''" "two_pair_task ! Suc 0 = ''srcSheet''"
    by (simp_all add: two_pair_task_def)
  have t1: "3 < length example_task" "example_task ! 3 = ''TRUE''"
    "(int (length example_task) - 5) mod 2 = 0" "1 < length example_task"
    "2 < length example_task" "0 < length example_task"
    "example_task ! 0 = ''T1''" "example_task ! 1 = ''srcSheet''"
    "example_task ! 2 = ''dstSheet''" "example_task ! Suc 0 = ''srcSheet''"
    by (simp_all add: example_task_def)
  have nil: "\<And>srv task. copy_pairs srv 5 configured task [] = (Inr (), configured)"
    by simp
  have f: "execute_request first_read_fails 5 configured ?R1 =
           (Inl (HttpErrorExn (HttpError ''500'' ''backend error'')),
            configured\<lparr>calls := calls configured @ [?R1]\<rparr>)"
    by (rule execute_request_HttpError) (simp_all add: first_read_fails_def c)
  have inst: "process_task_list first_read_fails 5 configured (two_pair_task # [example_task]) =
        (case copy_pairs first_read_fails 5 ?sa two_pair_task [?p2] of
           (Inl x, st') \<Rightarrow> (Inl x, st')
         | (Inr u, st') \<Rightarrow> process_task_list first_read_fails 5 st' [example_task])"
    using pair_failure_logged_and_skipped
      [OF c(1) t2(1) t2(2) t2(3) c(2) t2(4) c(3) t2(5) c(4) t2(6) two_pair_task_pairs nil,
       where err = "HttpError ''500'' ''backend error''" and rest = "[example_task]"
         and ?st2.0 = "configured\<lparr>calls := calls configured @ [?R1]\<rparr>"]
      f
    by (simp add: c t2)
  have "copy_pair first_read_fails 5 ?sa two_pair_task ?p2 =
          (Inr (), ?sa\<lparr>calls := calls ?sa @
            [ValuesGet (two_pair_task ! 1) (source_range ?p2) ''ROWS'' (Some ''UNFORMATTED_VALUE''),
             ValuesUpdate (two_pair_task ! 2) (destination_range ?p2) ''RAW''
               (example_values\<lparr>vr_range := Some (destination_range ?p2)\<rparr>)]\<rparr>)"
    by (rule first_read_fails_copy [where i = 0]) (simp_all add: c two_pair_task_def)
  then have ev: "copy_pairs first_read_fails 5 ?sa two_pair_task [?p2] = (Inr (), ?sb)"
    by (simp add: t2)
  have "copy_pair first_read_fails 5 ?sb example_task ?p1 =
          (Inr (), ?sb\<lparr>calls := calls ?sb @
            [ValuesGet (example_task ! 1) (source_range ?p1) ''ROWS'' (Some ''UNFORMATTED_VALUE''),
             ValuesUpdate (example_task ! 2) (destination_range ?p1) ''RAW''
               (example_values\<lparr>vr_range := Some (destination_range ?p1)\<rparr>)]\<rparr>)"
    by (rule first_read_fails_copy [where i = 0]) (simp_all add: c example_task_def)
  then have "copy_pairs first_read_fails 5 ?sb example_task ([] @ ?p1 # []) = (Inr (), ?sc)"
    by (simp add: t1)
  moreover have "process_task first_read_fails 5 ?sb example_task =
                 copy_pairs first_read_fails 5 ?sb example_task ([] @ ?p1 # [])"
    by (rule process_task_enabled [where e = 3])
      (simp_all add: c t1 example_task_pairs del: append.simps)
  ultimately have ev2: "process_task_list first_read_fails 5 ?sb [example_task] = (Inr (), ?sc)"
    by simp
  have w1: "process_task_list first_read_fails 5 configured [two_pair_task, example_task] =
            (Inr (), ?sc)"
    by (simp only: inst ev ev2 prod.case sum.case)
  have q1: "rate_limited (quota_then_error (calls configured) ?R1)"
    by (simp add: quota_then_error_def rate_limited_def c)
  have "quota_then_error
          (calls (configured\<lparr>calls := calls configured @ [?R1], slept := slept configured + 100\<rparr>))
          ?R1 = RaisesHttpError (HttpError ''500'' ''backend error'')"
    by (simp add: quota_then_error_def c)
  then have "execute_request quota_then_error 4
          (configured\<lparr>calls := calls configured @ [?R1], slept := slept configured + 100\<rparr>) ?R1 =
        (Inl (HttpErrorExn (HttpError ''500'' ''backend error'')),
         configured\<lparr>calls := [?R1, ?R1], slept := 100\<rparr>)"
    by (subst execute_request_HttpError) (simp_all add: c)
  with execute_request_429 [of quota_then_error configured ?R1 4] q1
  have q: "execute_request quota_then_error 5 configured ?R1 =
        (Inl (HttpErrorExn (HttpError ''500'' ''backend error'')),
         configured\<lparr>calls := [?R1, ?R1], slept := 100\<rparr>)"
    by (simp add: eval_nat_numeral)
  have w2: "process_task_list quota_then_error 5 configured [example_task] =
     (Inr (),
      configured\<lparr>calls := [?R1, ?R1], slept := 100,
        errors := [[''Failed to fetch data for task T1: backend error'']]\<rparr>)"
    using pair_failure_logged_and_skipped
      [OF c(1) t1(1) t1(2) t1(3) c(2) t1(4) c(3) t1(5) c(4) t1(6) example_task_pairs nil,
       where err = "HttpError ''500'' ''backend error''" and rest = "[]"
         and ?st2.0 = "configured\<lparr>calls := [?R1, ?R1], slept := 100\<rparr>"]
      q
    by (simp add: c t1)
  have g1: "execute_request read_only_service 5 configured ?R1 =
            (Inr example_values, configured\<lparr>calls := calls configured @ [?R1]\<rparr>)"
    by (rule execute_request_Returns) (simp add: read_only_service_def)
  have g2: "execute_request read_only_service 5
              (configured\<lparr>calls := calls configured @ [?R1]\<rparr>) ?W1 =
            (Inl (HttpErrorExn (HttpError ''403'' ''forbidden'')),
             configured\<lparr>calls := [?R1, ?W1]\<rparr>)"
    by (subst execute_request_HttpError) (simp_all add: read_only_service_def c)
  have w3: "process_task_list read_only_service 5 configured [example_task] =
     (Inr (),
      configured\<lparr>calls := [?R1, ?W1],
        errors := [[''Failed to write data for task T1: forbidden'']]\<rparr>)"
    using pair_failure_logged_and_skipped
      [OF c(1) t1(1) t1(2) t1(3) c(2) t1(4) c(3) t1(5) c(4) t1(6) example_task_pairs nil,
       where err = "HttpError ''403'' ''forbidden''" and rest = "[]"
         and response = example_values
         and ?st2.0 = "configured\<lparr>calls := calls configured @ [?R1]\<rparr>"
         and ?st3.0 = "configured\<lparr>calls := [?R1, ?W1]\<rparr>"]
      g1 g2
    by (simp add: c t1)
  from w1 w2 w3 show ?thesis by blast
qed

lemma copy_pairs_ok:
  assumes "s < length task" and "i < length task" and "d < length task"
  shows "source_sheet_index st = Some s \<Longrightarrow> task_id_index st = Some i \<Longrightarrow>
         destination_sheet_index st = Some d \<Longrightarrow>
         \<forall>k<length ps.
            srv (calls st @
                 concat (map (\<lambda>j. [ValuesGet (task ! s) (source_range (ps ! j)) ''ROWS''
                                      (Some ''UNFORMATTED_VALUE''),
                                    ValuesUpdate (task ! d) (destination_range (ps ! j)) ''RAW''
                                      ((f j)
                                         \<lparr>vr_range := Some (destination_range (ps ! j))\<rparr>)])
                             [0..<k]))
                (ValuesGet (task ! s) (source_range (ps ! k)) ''ROWS''
                   (Some ''UNFORMATTED_VALUE'')) = Returns (f k) \<and>
            (\<exists>ack.
               srv (calls st @
                    concat (map (\<lambda>j. [ValuesGet (task ! s) (source_range (ps ! j)) ''ROWS''
                                         (Some ''UNFORMATTED_VALUE''),
                                       ValuesUpdate (task ! d) (destination_range (ps ! j)) ''RAW''
                                         ((f j)
                                            \<lparr>vr_range := Some (destination_range (ps ! j))\<rparr>)])
                                [0..<k]) @
                    [ValuesGet (task ! s) (source_range (ps ! k)) ''ROWS''
                       (Some ''UNFORMATTED_VALUE'')])
                   (ValuesUpdate (task ! d) (destination_range (ps ! k)) ''RAW''
                      ((f k)\<lparr>vr_range := Some (destination_range (ps ! k))\<rparr>)) =
               Returns ack) \<Longrightarrow>
         copy_pairs srv depth st task ps =
           (Inr (), st\<lparr>calls := calls st @
              concat (map (\<lambda>j. [ValuesGet (task ! s) (source_range (ps ! j)) ''ROWS''
                                   (Some ''UNFORMATTED_VALUE''),
                                 ValuesUpdate (task ! d) (destination_range (ps ! j)) ''RAW''
                                   ((f j)
                                      \<lparr>vr_range := Some (destination_range (ps ! j))\<rparr>)])
                          [0..<length ps])\<rparr>)"
proof (induction ps arbitrary: st f)
  case Nil
  show ?case by simp
next
  case (Cons p ps)
  let ?R = "\<lambda>q. ValuesGet (task ! s) (source_range q) ''ROWS'' (Some ''UNFORMATTED_VALUE'')"
  let ?W = "\<lambda>q r. ValuesUpdate (task ! d) (destination_range q) ''RAW''
                     (r\<lparr>vr_range := Some (destination_range q)\<rparr>)"
  let ?F = "\<lambda>j. [?R ((p # ps) ! j), ?W ((p # ps) ! j) (f j)]"
  let ?G = "\<lambda>j. [?R (ps ! j), ?W (ps ! j) (f (Suc j))]"
  have shift: "concat (map ?F [0..<Suc k]) = [?R p, ?W p (f 0)] @ concat (map ?G [0..<k])"
    for k
    by (simp add: map_upt_Suc del: upt_Suc)
  from Cons.prems(4) have all: "\<forall>k<length (p # ps).
      srv (calls st @ concat (map ?F [0..<k])) (?R ((p # ps) ! k)) = Returns (f k) \<and>
      (\<exists>ack. srv (calls st @ concat (map ?F [0..<k]) @ [?R ((p # ps) ! k)])
                (?W ((p # ps) ! k) (f k)) = Returns ack)" .
  from all have "srv (calls st @ concat (map ?F [0..<0])) (?R ((p # ps) ! 0)) =
                   Returns (f 0) \<and>
                 (\<exists>ack. srv (calls st @ concat (map ?F [0..<0]) @ [?R ((p # ps) ! 0)])
                    (?W ((p # ps) ! 0) (f 0)) = Returns ack)"
    by (rule allE [of _ 0]) simp
  then obtain ack where r0: "srv (calls st) (?R p) = Returns (f 0)"
    and w0: "srv (calls st @ [?R p]) (?W p (f 0)) = Returns ack"
    by auto
  let ?st1 = "st\<lparr>calls := calls st @ [?R p, ?W p (f 0)]\<rparr>"
  have step: "copy_pair srv depth st task p = (Inr (), ?st1)"
    using Cons.prems(1) assms(1) Cons.prems(2) assms(2) Cons.prems(3) assms(3) r0 w0
    by (rule copy_pair_succeeds)
  have idx: "source_sheet_index ?st1 = Some s" "task_id_index ?st1 = Some i"
    "destination_sheet_index ?st1 = Some d"
    using Cons.prems by simp_all
  have rest: "\<forall>k<length ps.
      srv (calls ?st1 @ concat (map ?G [0..<k])) (?R (ps ! k)) = Returns (f (Suc k)) \<and>
      (\<exists>ack. srv (calls ?st1 @ concat (map ?G [0..<k]) @ [?R (ps ! k)])
                (?W (ps ! k) (f (Suc k))) = Returns ack)"
  proof (intro allI impI)
    fix k assume "k < length ps"
    then have "Suc k < length (p # ps)" by simp
    with all have "srv (calls st @ concat (map ?F [0..<Suc k])) (?R ((p # ps) ! Suc k)) =
                     Returns (f (Suc k)) \<and>
      (\<exists>ack. srv (calls st @ concat (map ?F [0..<Suc k]) @ [?R ((p # ps) ! Suc k)])
                (?W ((p # ps) ! Suc k) (f (Suc k))) = Returns ack)"
      by blast
    then show "srv (calls ?st1 @ concat (map ?G [0..<k])) (?R (ps ! k)) =
                 Returns (f (Suc k)) \<and>
      (\<exists>ack. srv (calls ?st1 @ concat (map ?G [0..<k]) @ [?R (ps ! k)])
                (?W (ps ! k) (f (Suc k))) = Returns ack)"
      unfolding shift by simp
  qed
  have "copy_pairs srv depth ?st1 task ps =
          (Inr (), ?st1\<lparr>calls := calls ?st1 @ concat (map ?G [0..<length ps])\<rparr>)"
    using idx rest by (rule Cons.IH [where f = "\<lambda>j. f (Suc j)"])
  with step show ?case
    by (simp add: shift del: upt_Suc)
qed

lemma length_expected_calls: "length (expected_calls task s d fetched n) = 2 * n"
  by (induction n) (simp_all add: expected_calls_def)

lemma expected_calls_Suc:
  "expected_calls task s d fetched (Suc n) =
     expected_calls task s d fetched n @
       [ValuesGet (task ! s) (task ! (5 + 2 * n)) ''ROWS'' (Some ''UNFORMATTED_VALUE''),
        ValuesUpdate (task ! d) (task ! (6 + 2 * n)) ''RAW''
          ((fetched ! n)\<lparr>vr_range := Some (task ! (6 + 2 * n))\<rparr>)]"
  by (simp add: expected_calls_def)

lemma expected_calls_nth:
  "k < n \<Longrightarrow>
   expected_calls task s d fetched n ! (2 * k) =
     ValuesGet (task ! s) (task ! (5 + 2 * k)) ''ROWS'' (Some ''UNFORMATTED_VALUE'') \<and>
   expected_calls task s d fetched n ! (2 * k + 1) =
     ValuesUpdate (task ! d) (task ! (6 + 2 * k)) ''RAW''
       ((fetched ! k)\<lparr>vr_range := Some (task ! (6 + 2 * k))\<rparr>)"
proof (induction n)
  case 0
  then show ?case by simp
next
  case (Suc n)
  show ?case
  proof (cases "k < n")
    case True
    then have "2 * k < length (expected_calls task s d fetched n)"
      "2 * k + 1 < length (expected_calls task s d fetched n)"
      by (simp_all add: length_expected_calls)
    with Suc.IH [OF True] show ?thesis
      by (simp add: expected_calls_Suc nth_append del: append.simps)
  next
    case False
    with Suc.prems have "k = n" by simp
    then show ?thesis
      by (simp add: expected_calls_Suc nth_append length_expected_calls)
  qed
qed

text \<open>
  C1 as stated fails at two inputs. A row of three cells whose Enable column
  is the first one passes both tests (\<open>(3 - 5) mod 2 = 0\<close>) and makes no call,
  while \<open>(3 - 5) div 2 = - 1\<close>. And when the read of the only pair of
  \<open>example_task\<close> fails with status 500, the read is the only call: no write
  follows it.
\<close>

theorem short_or_failing_task_pairs:
  "subscript short_enabled_task (enable_index enable_first) = Inr ''TRUE'' \<and>
   (int (length short_enabled_task) - 5) mod 2 = 0 \<and>
   (int (length short_enabled_task) - 5) div 2 = - 1 \<and>
   process_task no_failures 5 enable_first short_enabled_task = (Inr (), enable_first) \<and>
   subscript example_task (enable_index configured) = Inr ''TRUE'' \<and>
   (int (length example_task) - 5) mod 2 = 0 \<and>
   (int (length example_task) - 5) div 2 = 1 \<and>
   process_task server_error 5 configured example_task = (Inr (), after_failed_read) \<and>
   calls after_failed_read =
     [ValuesGet ''srcSheet'' ''A1:A2'' ''ROWS'' (Some ''UNFORMATTED_VALUE'')]"
proof -
  have a: "subscript short_enabled_task (enable_index enable_first) = Inr ''TRUE''"
    "(int (length short_enabled_task) - 5) mod 2 = 0"
    "(int (length short_enabled_task) - 5) div 2 = - 1"
    by (simp_all add: short_enabled_task_def enable_first_def subscript_def)
  have "get_source_destination_range_pairs short_enabled_task = Inr []"
    by (simp add: get_source_destination_range_pairs_def range_pairs_from.simps
        short_enabled_task_def)
  with a have b: "process_task no_failures 5 enable_first short_enabled_task =
                  (Inr (), enable_first)"
    by (simp add: process_task_def)
  have c: "subscript example_task (enable_index configured) = Inr ''TRUE''"
    "(int (length example_task) - 5) mod 2 = 0"
    "(int (length example_task) - 5) div 2 = 1"
    by (simp_all add: example_task_def configured_def subscript_def)
  let ?p = "\<lparr>source_range = ''A1:A2'', destination_range = ''B1:B2''\<rparr>"
  let ?R = "ValuesGet (example_task ! 1) (source_range ?p) ''ROWS'' (Some ''UNFORMATTED_VALUE'')"
  have x: "execute_request server_error 5 configured ?R =
          (Inl (HttpErrorExn (HttpError ''500'' ''backend error'')),
           configured\<lparr>calls := calls configured @ [?R]\<rparr>)"
    by (rule execute_request_HttpError) (simp_all add: server_error_def)
  have i: "source_sheet_index configured = Some 1" "1 < length example_task"
    "task_id_index configured = Some 0" "0 < length example_task"
    by (simp_all add: configured_def example_task_def)
  from i x have "copy_pair server_error 5 configured example_task ?p =
          (Inr (), (configured\<lparr>calls := calls configured @ [?R]\<rparr>)
             \<lparr>errors := errors (configured\<lparr>calls := calls configured @ [?R]\<rparr>) @
                   [[''Failed to fetch data for task '' @ example_task ! 0 @ '': '' @
                     detail (HttpError ''500'' ''backend error'')]]\<rparr>)"
    by (rule copy_pair_read_raises)
  then have "copy_pairs server_error 5 configured example_task ([] @ ?p # []) =
             (Inr (), after_failed_read)"
    by (simp add: configured_def example_task_def after_failed_read_def)
  with c have d: "process_task server_error 5 configured example_task =
                  (Inr (), after_failed_read)"
    by (simp add: process_task_def example_task_pairs del: append.simps)
  have e: "calls after_failed_read =
           [ValuesGet ''srcSheet'' ''A1:A2'' ''ROWS'' (Some ''UNFORMATTED_VALUE'')]"
    by (simp add: after_failed_read_def)
  from a b c d e show ?thesis by blast
qed

text \<open>
  C1, amended. For an enabled task row of length at least 5 with \<open>length - 5\<close>
  even, whose ID, source sheet and destination sheet columns lie in the row,
  when no call made for the task fails (the \<open>k\<close>-th read returns \<open>fetched ! k\<close> and
  the \<open>k\<close>-th write returns): processing the task makes exactly
  \<open>(length - 5) div 2\<close> read and write pairs and adds no error. For each \<open>k\<close>, in
  increasing order, call \<open>2k\<close> is the read of the range \<open>task[5 + 2k]\<close> from the
  source sheet with \<open>UNFORMATTED_VALUE\<close>, and call \<open>2k + 1\<close> is the \<open>RAW\<close> update
  of the range \<open>task[6 + 2k]\<close> of the destination sheet whose body is the response
  that read returned, with its range replaced by the destination range. The
  calls of the task come before everything the later rows do.
\<close>

theorem enabled_task_copies_each_pair:
  assumes "enable_index st = Some e" and "e < length task" and "task ! e = ''TRUE''"
    and "5 \<le> length task" and "even (length task - 5)"
    and "source_sheet_index st = Some s" and "s < length task"
    and "destination_sheet_index st = Some d" and "d < length task"
    and "task_id_index st = Some i" and "i < length task"
    and "\<forall>k<(length task - 5) div 2.
           srv (calls st @ expected_calls task s d fetched k)
             (ValuesGet (task ! s) (task ! (5 + 2 * k)) ''ROWS'' (Some ''UNFORMATTED_VALUE'')) =
           Returns (fetched ! k) \<and>
           (\<exists>ack.
              srv (calls st @ expected_calls task s d fetched k @
                   [ValuesGet (task ! s) (task ! (5 + 2 * k)) ''ROWS''
                      (Some ''UNFORMATTED_VALUE'')])
                (ValuesUpdate (task ! d) (task ! (6 + 2 * k)) ''RAW''
                   ((fetched ! k)\<lparr>vr_range := Some (task ! (6 + 2 * k))\<rparr>)) =
              Returns ack)"
  shows
    "process_task srv depth st task =
       (Inr (), st\<lparr>calls := calls st @
                 expected_calls task s d fetched ((length task - 5) div 2)\<rparr>) \<and>
     length (expected_calls task s d fetched ((length task - 5) div 2)) =
       2 * ((length task - 5) div 2) \<and>
     (\<forall>k<(length task - 5) div 2.
        expected_calls task s d fetched ((length task - 5) div 2) ! (2 * k) =
          ValuesGet (task ! s) (task ! (5 + 2 * k)) ''ROWS'' (Some ''UNFORMATTED_VALUE'') \<and>
        expected_calls task s d fetched ((length task - 5) div 2) ! (2 * k + 1) =
          ValuesUpdate (task ! d) (task ! (6 + 2 * k)) ''RAW''
            ((fetched ! k)\<lparr>vr_range := Some (task ! (6 + 2 * k))\<rparr>)) \<and>
     process_task_list srv depth st (task # rest) =
       process_task_list srv depth
         (st\<lparr>calls := calls st @
               expected_calls task s d fetched ((length task - 5) div 2)\<rparr>) rest"
proof -
  let ?n = "(length task - 5) div 2"
  let ?ps = "map (\<lambda>k. \<lparr>source_range = task ! (5 + 2 * k),
                          destination_range = task ! (6 + 2 * k)\<rparr>) [0..<?n]"
  let ?G = "\<lambda>j. [ValuesGet (task ! s) (source_range (?ps ! j)) ''ROWS''
                    (Some ''UNFORMATTED_VALUE''),
                  ValuesUpdate (task ! d) (destination_range (?ps ! j)) ''RAW''
                    ((fetched ! j)\<lparr>vr_range := Some (destination_range (?ps ! j))\<rparr>)]"
  have pairs: "get_source_destination_range_pairs task = Inr ?ps"
    using assms(4,5) by (rule pairs_of_row)
  from assms(4,5) have "(int (length task) - 5) mod 2 = 0"
    by (simp add: of_nat_diff [symmetric] flip: even_iff_mod_2_eq_zero)
  with assms(1-3) have task: "process_task srv depth st task = copy_pairs srv depth st task ?ps"
    using pairs by (rule process_task_enabled)
  have eq: "concat (map ?G [0..<j]) = expected_calls task s d fetched j" if "j \<le> ?n" for j
    unfolding expected_calls_def
    by (rule arg_cong [where f = concat], rule map_cong) (use that in auto)
  have hyp: "\<forall>k<length ?ps.
      srv (calls st @ concat (map ?G [0..<k]))
        (ValuesGet (task ! s) (source_range (?ps ! k)) ''ROWS'' (Some ''UNFORMATTED_VALUE'')) =
      Returns (fetched ! k) \<and>
      (\<exists>ack. srv (calls st @ concat (map ?G [0..<k]) @
                   [ValuesGet (task ! s) (source_range (?ps ! k)) ''ROWS''
                      (Some ''UNFORMATTED_VALUE'')])
                (ValuesUpdate (task ! d) (destination_range (?ps ! k)) ''RAW''
                   ((fetched ! k)\<lparr>vr_range := Some (destination_range (?ps ! k))\<rparr>)) =
              Returns ack)"
  proof (intro allI impI)
    fix k assume "k < length ?ps"
    then have k: "k < ?n" "k \<le> ?n" by simp_all
    with assms(12) have
      "srv (calls st @ expected_calls task s d fetched k)
             (ValuesGet (task ! s) (task ! (5 + 2 * k)) ''ROWS'' (Some ''UNFORMATTED_VALUE'')) =
           Returns (fetched ! k) \<and>
           (\<exists>ack.
              srv (calls st @ expected_calls task s d fetched k @
                   [ValuesGet (task ! s) (task ! (5 + 2 * k)) ''ROWS''
                      (Some ''UNFORMATTED_VALUE'')])
                (ValuesUpdate (task ! d) (task ! (6 + 2 * k)) ''RAW''
                   ((fetched ! k)\<lparr>vr_range := Some (task ! (6 + 2 * k))\<rparr>)) =
              Returns ack)"
      by blast
    with k show "srv (calls st @ concat (map ?G [0..<k]))
        (ValuesGet (task ! s) (source_range (?ps ! k)) ''ROWS'' (Some ''UNFORMATTED_VALUE'')) =
      Returns (fetched ! k) \<and>
      (\<exists>ack. srv (calls st @ concat (map ?G [0..<k]) @
                   [ValuesGet (task ! s) (source_range (?ps ! k)) ''ROWS''
                      (Some ''UNFORMATTED_VALUE'')])
                (ValuesUpdate (task ! d) (destination_range (?ps ! k)) ''RAW''
                   ((fetched ! k)\<lparr>vr_range := Some (destination_range (?ps ! k))\<rparr>)) =
              Returns ack)"
      by (simp add: eq)
  qed
  have "copy_pairs srv depth st task ?ps =
          (Inr (), st\<lparr>calls := calls st @ concat (map ?G [0..<length ?ps])\<rparr>)"
    using assms(7) assms(11) assms(9) assms(6) assms(10) assms(8) hyp
    by (rule copy_pairs_ok [where f = "\<lambda>j. fetched ! j"])
  with task eq [of ?n] have A: "process_task srv depth st task =
       (Inr (), st\<lparr>calls := calls st @ expected_calls task s d fetched ?n\<rparr>)"
    by simp
  then have D: "process_task_list srv depth st (task # rest) =
       process_task_list srv depth
         (st\<lparr>calls := calls st @ expected_calls task s d fetched ?n\<rparr>) rest"
    by simp
  from A D length_expected_calls [of task s d fetched ?n]
    expected_calls_nth [of _ ?n task s d fetched]
  show ?thesis by blast
qed

text \<open>
  C1 amended, at the row \<open>example_task\<close> and a service that fails for another
  sheet only: one read of \<open>A1:A2\<close> from \<open>srcSheet\<close> and one write of the fetched
  values to \<open>B1:B2\<close> on \<open>dstSheet\<close>.
\<close>

theorem enabled_task_copies_each_pair_witness:
  "process_task fails_elsewhere 5 configured example_task =
     (Inr (), configured\<lparr>calls :=
       [ValuesGet ''srcSheet'' ''A1:A2'' ''ROWS'' (Some ''UNFORMATTED_VALUE''),
        ValuesUpdate ''dstSheet'' ''B1:B2'' ''RAW''
          (example_values\<lparr>vr_range := Some ''B1:B2''\<rparr>)]\<rparr>)"
proof -
  have h: "enable_index configured = Some 3" "3 < length example_task"
    "example_task ! 3 = ''TRUE''" "5 \<le> length example_task"
    "even (length example_task - 5)"
    "source_sheet_index configured = Some 1" "1 < length example_task"
    "destination_sheet_index configured = Some 2" "2 < length example_task"
    "task_id_index configured = Some 0" "0 < length example_task"
    by (simp_all add: configured_def example_task_def)
  have n: "(length example_task - 5) div 2 = Suc 0"
    and c: "calls configured = []"
    and t: "example_task ! Suc 0 = ''srcSheet''" "example_task ! 2 = ''dstSheet''"
    "example_task ! 5 = ''A1:A2''" "example_task ! 6 = ''B1:B2''"
    by (simp_all add: example_task_def configured_def)
  have ok: "\<forall>k<(length example_task - 5) div 2.
           fails_elsewhere (calls configured @ expected_calls example_task 1 2 [example_values] k)
             (ValuesGet (example_task ! 1) (example_task ! (5 + 2 * k)) ''ROWS''
                (Some ''UNFORMATTED_VALUE'')) =
           Returns ([example_values] ! k) \<and>
           (\<exists>ack.
              fails_elsewhere
                (calls configured @ expected_calls example_task 1 2 [example_values] k @
                   [ValuesGet (example_task ! 1) (example_task ! (5 + 2 * k)) ''ROWS''
                      (Some ''UNFORMATTED_VALUE'')])
                (ValuesUpdate (example_task ! 2) (example_task ! (6 + 2 * k)) ''RAW''
                   (([example_values] ! k)\<lparr>vr_range := Some (example_task ! (6 + 2 * k))\<rparr>)) =
              Returns ack)"
    by (simp add: n t fails_elsewhere_def)
  from enabled_task_copies_each_pair [OF h ok, of 5 "[]"] show ?thesis
    by (simp add: n c t expected_calls_def)
qed

section \<open>The configuration loader\<close>

lemma resolve_header_fields:
  "resolve_header c header st =
     st\<lparr>source_sheet_index := pick_column ''Source Sheet Id'' c header (source_sheet_index st),
        destination_sheet_index :=
          pick_column ''Destination Sheet Id'' c header (destination_sheet_index st),
        task_id_index := pick_column ''ID'' c header (task_id_index st),
        enable_index := pick_column ''Enable'' c header (enable_index st)\<rparr>"
  by (induction header arbitrary: c st) (simp_all add: Let_def)

lemma pick_column_absent:
  "label \<notin> set header \<Longrightarrow> pick_column label c header old = old"
  by (induction header arbitrary: c old) auto

lemma pick_column_last:
  "i < length header \<Longrightarrow> header ! i = label \<Longrightarrow>
   \<forall>j. i < j \<and> j < length header \<longrightarrow> header ! j \<noteq> label \<Longrightarrow>
   pick_column label c header old = Some (c + i)"
proof (induction header arbitrary: c i old)
  case Nil
  then show ?case by simp
next
  case (Cons v rest)
  show ?case
  proof (cases i)
    case 0
    with Cons.prems have v: "v = label" by simp
    have "label \<notin> set rest"
    proof
      assume "label \<in> set rest"
      then obtain j where "j < length rest" "rest ! j = label"
        by (auto simp: in_set_conv_nth)
      with Cons.prems(3) 0 show False
        by (auto dest: spec [of _ "Suc j"])
    qed
    then show ?thesis
      using v 0 by (simp add: pick_column_absent)
  next
    case (Suc k)
    with Cons.prems have "k < length rest" "rest ! k = label"
      by simp_all
    moreover have "\<forall>j. k < j \<and> j < length rest \<longrightarrow> rest ! j \<noteq> label"
    proof (intro allI impI)
      fix j assume "k < j \<and> j < length rest"
      with Cons.prems(3) Suc show "rest ! j \<noteq> label"
        by (auto dest: spec [of _ "Suc j"])
    qed
    ultimately have "pick_column label (c + 1) rest (if v = label then Some c else old) =
                     Some (c + 1 + k)"
      by (rule Cons.IH)
    with Suc show ?thesis by simp
  qed
qed

lemma fetch_config_data_rows:
  assumes "execute_request srv (Suc depth) st
             (ValuesGet (configuration_sheet_id st) ''Configuration!A1:Z50'' ''ROWS'' None) =
           (Inr response, st1)"
    and "vr_values response = Some (header # rows)"
  shows "fetch_config_data srv depth st =
           (Inr (), (resolve_header 0 header st1)\<lparr>tasks := rows\<rparr>)"
  using assms by (simp add: fetch_config_data_def configuration_range_def)

lemma example_request_init:
  "ValuesGet (configuration_sheet_id (init ''cfg'')) ''Configuration!A1:Z50'' ''ROWS'' None =
   example_request"
  by (simp add: init_def example_request_def)

text \<open>
  C8. When the configuration fetch returns rows, a label whose last occurrence
  in row 0 is at column \<open>i\<close> gets the column index \<open>i\<close>, for each of the four
  labels \<open>ID\<close>, \<open>Source Sheet Id\<close>, \<open>Destination Sheet Id\<close> and \<open>Enable\<close>:
  a later occurrence overwrites the index an earlier one assigned.
\<close>

theorem header_last_match_wins:
  assumes "execute_request srv (Suc depth) st
             (ValuesGet (configuration_sheet_id st) ''Configuration!A1:Z50'' ''ROWS'' None) =
           (Inr response, st1)"
    and "vr_values response = Some (header # rows)"
    and "i < length header" and "header ! i = label"
    and "\<forall>j. i < j \<and> j < length header \<longrightarrow> header ! j \<noteq> label"
  shows "\<exists>st'. fetch_config_data srv depth st = (Inr (), st') \<and>
           (label = ''ID'' \<longrightarrow> task_id_index st' = Some i) \<and>
           (label = ''Source Sheet Id'' \<longrightarrow> source_sheet_index st' = Some i) \<and>
           (label = ''Destination Sheet Id'' \<longrightarrow> destination_sheet_index st' = Some i) \<and>
           (label = ''Enable'' \<longrightarrow> enable_index st' = Some i)"
proof -
  have col: "pick_column label 0 header old = Some i" for old
    using pick_column_last [OF assms(3-5), of 0 old] by simp
  let ?st' = "(resolve_header 0 header st1)\<lparr>tasks := rows\<rparr>"
  have "fetch_config_data srv depth st = (Inr (), ?st')"
    using assms(1,2) by (rule fetch_config_data_rows)
  moreover have "label = ''ID'' \<longrightarrow> task_id_index ?st' = Some i"
    using col by (auto simp: resolve_header_fields)
  moreover have "label = ''Source Sheet Id'' \<longrightarrow> source_sheet_index ?st' = Some i"
    using col by (auto simp: resolve_header_fields)
  moreover have "label = ''Destination Sheet Id'' \<longrightarrow> destination_sheet_index ?st' = Some i"
    using col by (auto simp: resolve_header_fields)
  moreover have "label = ''Enable'' \<longrightarrow> enable_index ?st' = Some i"
    using col by (auto simp: resolve_header_fields)
  ultimately show ?thesis by blast
qed

text \<open>
  C8, at a header with \<open>Enable\<close> in columns 1 and 5.
\<close>

theorem header_last_match_wins_witness:
  "\<exists>st'. fetch_config_data duplicate_header_service 5 (init ''cfg'') = (Inr (), st') \<and>
         enable_index st' = Some 5"
proof -
  have "execute_request duplicate_header_service (Suc 5) (init ''cfg'') example_request =
        (Inr duplicate_header_config,
         (init ''cfg'')\<lparr>calls := calls (init ''cfg'') @ [example_request]\<rparr>)"
    by (rule execute_request_Returns) (simp add: duplicate_header_service_def)
  then have x: "execute_request duplicate_header_service (Suc 5) (init ''cfg'')
          (ValuesGet (configuration_sheet_id (init ''cfg'')) ''Configuration!A1:Z50'' ''ROWS'' None) =
        (Inr duplicate_header_config,
         (init ''cfg'')\<lparr>calls := calls (init ''cfg'') @ [example_request]\<rparr>)"
    by (simp only: example_request_init)
  have v: "vr_values duplicate_header_config = Some (duplicate_header # [])"
    by (simp add: duplicate_header_config_def)
  have h: "5 < length duplicate_header" "duplicate_header ! 5 = ''Enable''"
    "\<forall>j. 5 < j \<and> j < length duplicate_header \<longrightarrow> duplicate_header ! j \<noteq> ''Enable''"
    by (simp_all add: duplicate_header_def)
  from header_last_match_wins [OF x v h] show ?thesis
    by auto
qed

lemma fetch_config_data_raises_iff:
  "fetch_config_data srv depth st =
     (Inl (Exception ''failed to fetch configuration data''), st') \<longleftrightarrow>
   (\<exists>response.
      execute_request srv (Suc depth) st
        (ValuesGet (configuration_sheet_id st) ''Configuration!A1:Z50'' ''ROWS'' None) =
      (Inr response, st') \<and>
      vr_values response = None)"
proof
  let ?x = "execute_request srv (Suc depth) st
        (ValuesGet (configuration_sheet_id st) ''Configuration!A1:Z50'' ''ROWS'' None)"
  assume raised: "fetch_config_data srv depth st =
     (Inl (Exception ''failed to fetch configuration data''), st')"
  obtain r s1 where y: "?x = (r, s1)" by (cases ?x)
  show "\<exists>response. ?x = (Inr response, st') \<and> vr_values response = None"
  proof (cases r)
    case (Inl x)
    from execute_request_raises [of srv "Suc depth" st _ x s1] y Inl
    have "x \<noteq> Exception ''failed to fetch configuration data''" by auto
    with raised y Inl show ?thesis
      by (simp add: fetch_config_data_def configuration_range_def)
  next
    case (Inr response)
    with raised y show ?thesis
      by (auto simp: fetch_config_data_def configuration_range_def
          split: option.splits list.splits)
  qed
next
  assume "\<exists>response.
      execute_request srv (Suc depth) st
        (ValuesGet (configuration_sheet_id st) ''Configuration!A1:Z50'' ''ROWS'' None) =
      (Inr response, st') \<and>
      vr_values response = None"
  then show "fetch_config_data srv depth st =
     (Inl (Exception ''failed to fetch configuration data''), st')"
    by (auto simp: fetch_config_data_def configuration_range_def)
qed

text \<open>
  C6 as stated fails: a response whose \<open>values\<close> key holds an empty list of
  rows passes the test for the key, and the subscript of row 0 raises
  IndexError; no configuration-fetch exception is raised and no task list is
  set.
\<close>

theorem no_rows_raise_index_error:
  "vr_values no_rows = Some [] \<and>
   fst (fetch_config_data no_rows_service 5 (init ''cfg'')) = Inl IndexError"
proof -
  have "execute_request no_rows_service (Suc 5) (init ''cfg'') example_request =
        (Inr no_rows, (init ''cfg'')\<lparr>calls := calls (init ''cfg'') @ [example_request]\<rparr>)"
    by (rule execute_request_Returns) (simp add: no_rows_service_def)
  then show ?thesis
    by (simp add: fetch_config_data_def no_rows_def configuration_range_def
        example_request_init)
qed

text \<open>
  C6, amended. \<^verbatim>\<open>fetch_config_data\<close> raises the exception
  \<open>failed to fetch configuration data\<close> if and only if the fetch returned a
  response without the key \<open>values\<close>; when the response holds at least one row,
  the task list becomes the rows after row 0.
\<close>

theorem fetch_config_data_outcome:
  "(fetch_config_data srv depth st =
      (Inl (Exception ''failed to fetch configuration data''), st') \<longleftrightarrow>
    (\<exists>response.
       execute_request srv (Suc depth) st
         (ValuesGet (configuration_sheet_id st) ''Configuration!A1:Z50'' ''ROWS'' None) =
       (Inr response, st') \<and>
       vr_values response = None)) \<and>
   (execute_request srv (Suc depth) st
      (ValuesGet (configuration_sheet_id st) ''Configuration!A1:Z50'' ''ROWS'' None) =
    (Inr response1, st1) \<and>
    vr_values response1 = Some rows \<and> rows \<noteq> [] \<longrightarrow>
    (\<exists>st2. fetch_config_data srv depth st = (Inr (), st2) \<and> tasks st2 = tl rows))"
proof -
  have "\<exists>st2. fetch_config_data srv depth st = (Inr (), st2) \<and> tasks st2 = tl rows"
    if "execute_request srv (Suc depth) st
          (ValuesGet (configuration_sheet_id st) ''Configuration!A1:Z50'' ''ROWS'' None) =
        (Inr response1, st1)"
      and "vr_values response1 = Some rows" and "rows \<noteq> []"
  proof -
    from that(3) obtain header rest where "rows = header # rest"
      by (cases rows) auto
    with that(1,2) show ?thesis
      by (simp add: fetch_config_data_rows)
  qed
  with fetch_config_data_raises_iff [of srv depth st st'] show ?thesis
    by blast
qed

text \<open>
  C6 amended, at a response without values and at a response of four rows.
\<close>

theorem fetch_config_data_outcome_witness:
  "fetch_config_data no_values_service 5 (init ''cfg'') =
     (Inl (Exception ''failed to fetch configuration data''),
      (init ''cfg'')\<lparr>calls := [example_request]\<rparr>) \<and>
   (\<exists>st2. fetch_config_data empty_row_service 5 (init ''cfg'') = (Inr (), st2) \<and>
          tasks st2 = [odd_task, [], example_task])"
proof -
  let ?st = "init ''cfg''"
  let ?st1 = "?st\<lparr>calls := [example_request]\<rparr>"
  let ?q = "ValuesGet (configuration_sheet_id ?st) ''Configuration!A1:Z50'' ''ROWS'' None"
  have c: "calls ?st = []"
    by (simp add: init_def)
  have "execute_request no_values_service (Suc 5) ?st example_request =
           (Inr no_values, ?st\<lparr>calls := calls ?st @ [example_request]\<rparr>)"
    by (rule execute_request_Returns) (simp add: no_values_service_def)
  then have a: "execute_request no_values_service (Suc 5) ?st ?q = (Inr no_values, ?st1)"
    by (simp add: example_request_init c)
  have "execute_request empty_row_service (Suc 5) ?st example_request =
           (Inr config_with_empty_row, ?st\<lparr>calls := calls ?st @ [example_request]\<rparr>)"
    by (rule execute_request_Returns) (simp add: empty_row_service_def)
  then have b: "execute_request empty_row_service (Suc 5) ?st ?q =
                (Inr config_with_empty_row, ?st1)"
    by (simp add: example_request_init c)
  have v: "vr_values no_values = None"
    "vr_values config_with_empty_row = Some [example_header, odd_task, [], example_task]"
    by (simp_all add: no_values_def config_with_empty_row_def)
  have w1: "fetch_config_data no_values_service 5 ?st =
            (Inl (Exception ''failed to fetch configuration data''), ?st1)"
    using fetch_config_data_outcome
      [where srv = no_values_service and depth = 5 and st = ?st and st' = ?st1] a v
    by blast
  have w2: "\<exists>st2. fetch_config_data empty_row_service 5 ?st = (Inr (), st2) \<and>
                  tasks st2 = [odd_task, [], example_task]"
    using fetch_config_data_outcome
      [where srv = empty_row_service and depth = 5 and st = ?st
         and ?response1.0 = config_with_empty_row and ?st1.0 = ?st1
         and rows = "[example_header, odd_task, [], example_task]"] b v
    by simp
  from w1 w2 show ?thesis by blast
qed

section \<open>The error reporter\<close>

lemma below_ten: "n < 10 \<Longrightarrow> n \<in> {0, 1, 2, 3, 4, 5, 6, 7, 8, 9 :: nat}"
  by auto

lemma digit_char_value: "n < 10 \<Longrightarrow> (of_char (digit_char n) :: nat) - 48 = n"
  by (drule below_ten) (auto simp: digit_char_def)

lemma digit_char_digit: "n < 10 \<Longrightarrow> digit_char n \<in> set ''0123456789''"
  by (drule below_ten) (auto simp: digit_char_def)

lemma digit_char_zero: "n < 10 \<Longrightarrow> 0 < n \<Longrightarrow> digit_char n \<noteq> CHR ''0''"
  by (drule below_ten) (auto simp: digit_char_def)

lemma str_nat_nonempty: "str_nat n \<noteq> []"
  by (subst str_nat.simps) simp

lemma str_nat_digits: "set (str_nat n) \<subseteq> set ''0123456789''"
proof (induction n rule: str_nat.induct)
  case (1 n)
  show ?case
  proof (cases "n < 10")
    case True
    then show ?thesis
      using digit_char_digit [of n] by (subst str_nat.simps) simp
  next
    case False
    then have "set (str_nat (n div 10)) \<subseteq> set ''0123456789''"
      by (rule "1.IH")
    moreover have "digit_char (n mod 10) \<in> set ''0123456789''"
      by (rule digit_char_digit) simp
    ultimately show ?thesis
      using False by (subst str_nat.simps) simp
  qed
qed

lemma str_nat_value:
  "foldl (\<lambda>a c. 10 * a + (of_char c - 48)) 0 (str_nat n) = n"
proof (induction n rule: str_nat.induct)
  case (1 n)
  show ?case
  proof (cases "n < 10")
    case True
    then show ?thesis
      by (subst str_nat.simps) (simp add: digit_char_value)
  next
    case False
    then have "foldl (\<lambda>a c. 10 * a + (of_char c - 48)) 0 (str_nat (n div 10)) = n div 10"
      by (rule "1.IH")
    moreover have "(of_char (digit_char (n mod 10)) :: nat) - 48 = n mod 10"
      by (rule digit_char_value) simp
    ultimately show ?thesis
      using False by (subst str_nat.simps) simp
  qed
qed

lemma str_nat_no_leading_zero: "0 < n \<Longrightarrow> hd (str_nat n) \<noteq> CHR ''0''"
proof (induction n rule: str_nat.induct)
  case (1 n)
  show ?case
  proof (cases "n < 10")
    case True
    with "1.prems" show ?thesis
      by (subst str_nat.simps) (simp add: digit_char_zero)
  next
    case False
    then have "0 < n div 10" by simp
    with False have "hd (str_nat (n div 10)) \<noteq> CHR ''0''"
      by (rule "1.IH")
    then show ?thesis
      using False by (subst str_nat.simps) (simp add: str_nat_nonempty)
  qed
qed

lemma single_column_add_error: "single_column st \<Longrightarrow> single_column (add_error st m)"
  by (simp add: single_column_def add_error_def)

lemma execute_request_errors:
  "execute_request srv depth st request = (r, st') \<Longrightarrow> errors st' = errors st"
  by (simp add: execute_request_same_config)

lemma log_error_single_column:
  assumes "execute_request_or_log_error srv depth st request msg = (r, st')"
    and "single_column st"
  shows "single_column st'"
proof -
  obtain r1 st1 where y: "execute_request srv depth st request = (r1, st1)"
    by (cases "execute_request srv depth st request")
  then have "errors st1 = errors st"
    by (rule execute_request_errors)
  with assms(2) have sc: "single_column st1"
    by (simp add: single_column_def)
  from assms(1) y have "st' = st1 \<or> (\<exists>m. st' = add_error st1 m)"
    by (auto simp: execute_request_or_log_error_def split: sum.splits exn.splits)
  with sc show ?thesis
    by (auto simp: single_column_add_error)
qed

lemma copy_pair_single_column:
  assumes "copy_pair srv depth st task p = (r, st')" and "single_column st"
  shows "single_column st'"
  using assms
  by (auto simp: copy_pair_def split: sum.splits option.splits prod.splits
      dest: log_error_single_column)

lemma copy_pairs_single_column:
  "copy_pairs srv depth st task ps = (r, st') \<Longrightarrow> single_column st \<Longrightarrow> single_column st'"
proof (induction ps arbitrary: st)
  case Nil
  then show ?case by simp
next
  case (Cons p ps)
  then show ?case
    by (auto split: sum.splits prod.splits dest: copy_pair_single_column)
qed

lemma process_task_single_column:
  "process_task srv depth st task = (r, st') \<Longrightarrow> single_column st \<Longrightarrow> single_column st'"
  by (auto simp: process_task_def single_column_add_error
      split: sum.splits if_splits dest: copy_pairs_single_column)

lemma process_task_list_single_column:
  "process_task_list srv depth st ts = (r, st') \<Longrightarrow> single_column st \<Longrightarrow> single_column st'"
proof (induction ts arbitrary: st)
  case Nil
  then show ?case by simp
next
  case (Cons t ts)
  then show ?case
    by (auto split: sum.splits prod.splits dest: process_task_single_column)
qed

lemma fetch_config_data_errors:
  "fetch_config_data srv depth st = (r, st') \<Longrightarrow> errors st' = errors st"
  by (auto simp: fetch_config_data_def resolve_header_fields
      split: option.splits sum.splits prod.splits list.splits
      dest: execute_request_errors)

lemma errors_foldl_add_error:
  "errors (foldl add_error st messages) = errors st @ map (\<lambda>m. [m]) messages"
  by (induction messages arbitrary: st) (simp_all add: add_error_def)

text \<open>
  C7. \<^verbatim>\<open>handle_errors\<close> with no error record returns without a call. With
  \<open>N > 0\<close> records it executes one request through \<^verbatim>\<open>execute_request\<close>: the
  \<open>RAW\<close> update of the range \<open>Errors!A1:A{N}\<close> of the configuration document with
  the records as rows. Whatever \<^verbatim>\<open>execute_request\<close> raises for it is raised to the
  caller; a success at the first attempt logs exactly that one call; and no
  other request is ever sent. \<open>{N}\<close> is the decimal numeral of \<open>N\<close>: a non-empty
  string of digits without a leading zero whose value is \<open>N\<close>. Every record is a
  row of one cell, in the order of \<^verbatim>\<open>add_error\<close>.
\<close>

theorem handle_errors_flush:
  assumes "error_range = ''Errors!A1:A'' @ str_nat (length (errors st))"
    and "flush =
           ValuesUpdate (configuration_sheet_id st) error_range ''RAW''
             \<lparr>vr_range = Some error_range, vr_majorDimension = Some ''ROWS'',
              vr_values = Some (errors st)\<rparr>"
  shows
    "(errors st = [] \<longrightarrow> handle_errors srv depth st = (Inr (), st)) \<and>
     (errors st \<noteq> [] \<and> execute_request srv (Suc depth) st flush = (Inl x, st') \<longrightarrow>
        handle_errors srv depth st = (Inl x, st')) \<and>
     (errors st \<noteq> [] \<and> execute_request srv (Suc depth) st flush = (Inr ack, st') \<longrightarrow>
        handle_errors srv depth st = (Inr (), st')) \<and>
     (errors st \<noteq> [] \<and> srv (calls st) flush = Returns ack \<longrightarrow>
        handle_errors srv depth st = (Inr (), st\<lparr>calls := calls st @ [flush]\<rparr>)) \<and>
     (errors st \<noteq> [] \<longrightarrow>
        (\<exists>k. calls (snd (handle_errors srv depth st)) = calls st @ replicate (Suc k) flush)) \<and>
     (str_nat n \<noteq> [] \<and> set (str_nat n) \<subseteq> set ''0123456789'' \<and>
      (0 < n \<longrightarrow> hd (str_nat n) \<noteq> CHR ''0'') \<and>
      foldl (\<lambda>a c. 10 * a + (of_char c - 48)) 0 (str_nat n) = n) \<and>
     errors (foldl add_error st messages) = errors st @ map (\<lambda>m. [m]) messages \<and>
     (fetch_config_data srv depth (init config_sheet_id) = (Inr (), st1) \<and>
      process_tasks srv depth st1 = (Inr (), st2) \<longrightarrow>
        list_all (\<lambda>row. length row = 1) (errors st2))"
proof -
  have unfold: "handle_errors srv depth st =
          (case execute_request srv (Suc depth) st flush of
             (Inl x, st') \<Rightarrow> (Inl x, st')
           | (Inr _, st') \<Rightarrow> (Inr (), st'))"
    if "errors st \<noteq> []"
    using that assms by (simp add: handle_errors_def Let_def)
  have A: "handle_errors srv depth st = (Inr (), st)" if "errors st = []"
    using that by (simp add: handle_errors_def)
  have B: "handle_errors srv depth st = (Inl x, st')"
    if "errors st \<noteq> []" and "execute_request srv (Suc depth) st flush = (Inl x, st')"
    using that unfold by simp
  have C: "handle_errors srv depth st = (Inr (), st')"
    if "errors st \<noteq> []" and "execute_request srv (Suc depth) st flush = (Inr ack, st')"
    using that unfold by simp
  have D: "handle_errors srv depth st = (Inr (), st\<lparr>calls := calls st @ [flush]\<rparr>)"
    if "errors st \<noteq> []" and "srv (calls st) flush = Returns ack"
    using that unfold execute_request_Returns [of srv st flush ack "Suc depth"] by simp
  have E: "\<exists>k. calls (snd (handle_errors srv depth st)) = calls st @ replicate (Suc k) flush"
    if "errors st \<noteq> []"
  proof -
    from execute_request_frame [of srv "Suc depth" st flush] obtain k m where
      "snd (execute_request srv (Suc depth) st flush) =
         st\<lparr>calls := calls st @ replicate (Suc k) flush, slept := slept st + 100 * m\<rparr>"
      by blast
    moreover have "snd (handle_errors srv depth st) =
                   snd (execute_request srv (Suc depth) st flush)"
      using unfold [OF that] by (auto split: sum.splits prod.splits)
    ultimately have "calls (snd (handle_errors srv depth st)) =
                     calls st @ replicate (Suc k) flush"
      by simp
    then show ?thesis by blast
  qed
  have F: "str_nat n \<noteq> [] \<and> set (str_nat n) \<subseteq> set ''0123456789'' \<and>
      (0 < n \<longrightarrow> hd (str_nat n) \<noteq> CHR ''0'') \<and>
      foldl (\<lambda>a c. 10 * a + (of_char c - 48)) 0 (str_nat n) = n"
    using str_nat_nonempty [of n] str_nat_digits [of n] str_nat_no_leading_zero [of n]
      str_nat_value [of n]
    by blast
  have G: "list_all (\<lambda>row. length row = 1) (errors st2)"
    if f: "fetch_config_data srv depth (init config_sheet_id) = (Inr (), st1)"
      and p: "process_tasks srv depth st1 = (Inr (), st2)"
  proof -
    from f have "errors st1 = []"
      by (simp add: fetch_config_data_errors init_def)
    then have "single_column st1"
      by (simp add: single_column_def)
    with p have "single_column st2"
      by (auto simp: process_tasks_def dest: process_task_list_single_column)
    then show ?thesis
      by (simp add: single_column_def)
  qed
  from A B C D E F G errors_foldl_add_error [of st messages] show ?thesis
    by blast
qed

text \<open>
  C7, at a state without errors, at a state with two errors on a service that
  succeeds and on one that answers 429 and then 500, at a state with twelve
  errors, and at a run whose only task row is malformed.
\<close>

theorem handle_errors_flush_witness:
  "handle_errors no_failures 5 configured = (Inr (), configured) \<and>
   handle_errors no_failures 5 two_errors =
     (Inr (), two_errors\<lparr>calls := [two_errors_request]\<rparr>) \<and>
   handle_errors quota_then_error 5 two_errors =
     (Inl (HttpErrorExn (HttpError ''500'' ''backend error'')),
      two_errors\<lparr>calls := [two_errors_request, two_errors_request], slept := 100\<rparr>) \<and>
   handle_errors no_failures 5 twelve_errors =
     (Inr (), twelve_errors\<lparr>calls := [twelve_errors_request]\<rparr>) \<and>
   str_nat 2 = ''2'' \<and> str_nat 12 = ''12'' \<and>
   fetch_config_data odd_row_service 5 (init ''cfg'') = (Inr (), odd_row_loaded) \<and>
   process_tasks odd_row_service 5 odd_row_loaded =
     (Inr (), odd_row_loaded\<lparr>errors :=
       [[''Task T2 is not configured properly. Check source and destination pair.'']]\<rparr>) \<and>
   list_all (\<lambda>row. length row = 1)
     (errors (odd_row_loaded\<lparr>errors :=
       [[''Task T2 is not configured properly. Check source and destination pair.'']]\<rparr>))"
proof -
  let ?done = "odd_row_loaded\<lparr>errors :=
       [[''Task T2 is not configured properly. Check source and destination pair.'']]\<rparr>"
  have n2: "str_nat 2 = ''2''"
    by (subst str_nat.simps) (simp add: digit_char_def)
  have "str_nat 1 = ''1''"
    by (subst str_nat.simps) (simp add: digit_char_def)
  then have n12: "str_nat 12 = ''12''"
    by (subst str_nat.simps) (simp add: digit_char_def)
  have l: "length (errors two_errors) = 2" "length (errors twelve_errors) = 12"
    "length (errors configured) = 0"
    by (simp_all add: two_errors_def twelve_errors_def configured_def)
  have r2: "''Errors!A1:A2'' = ''Errors!A1:A'' @ str_nat (length (errors two_errors))"
    by (simp add: l n2)
  have r12: "''Errors!A1:A12'' = ''Errors!A1:A'' @ str_nat (length (errors twelve_errors))"
    by (simp add: l n12)
  have f2: "two_errors_request =
        ValuesUpdate (configuration_sheet_id two_errors) ''Errors!A1:A2'' ''RAW''
          \<lparr>vr_range = Some ''Errors!A1:A2'', vr_majorDimension = Some ''ROWS'',
           vr_values = Some (errors two_errors)\<rparr>"
    by (simp add: two_errors_request_def two_errors_def)
  have f12: "twelve_errors_request =
        ValuesUpdate (configuration_sheet_id twelve_errors) ''Errors!A1:A12'' ''RAW''
          \<lparr>vr_range = Some ''Errors!A1:A12'', vr_majorDimension = Some ''ROWS'',
           vr_values = Some (errors twelve_errors)\<rparr>"
    by (simp add: twelve_errors_request_def twelve_errors_def)
  have r0: "''Errors!A1:A0'' = ''Errors!A1:A'' @ str_nat (length (errors configured))"
    by (subst str_nat.simps) (simp add: l digit_char_def)
  have e: "errors configured = []" "errors two_errors \<noteq> []" "calls two_errors = []"
    "errors twelve_errors \<noteq> []" "calls twelve_errors = []" "slept two_errors = 0"
    by (simp_all add: configured_def two_errors_def twelve_errors_def)
  have w1: "handle_errors no_failures 5 configured = (Inr (), configured)"
    using handle_errors_flush [OF r0 refl, where srv = no_failures and depth = 5] e by simp
  have w2: "handle_errors no_failures 5 two_errors =
            (Inr (), two_errors\<lparr>calls := [two_errors_request]\<rparr>)"
    using handle_errors_flush [OF r2 f2, where srv = no_failures and depth = 5
        and ack = example_values] e
    by (simp add: no_failures_def)
  have q1: "rate_limited (quota_then_error (calls two_errors) two_errors_request)"
    by (simp add: quota_then_error_def rate_limited_def e)
  have "quota_then_error
          (calls (two_errors\<lparr>calls := calls two_errors @ [two_errors_request],
                             slept := slept two_errors + 100\<rparr>))
          two_errors_request = RaisesHttpError (HttpError ''500'' ''backend error'')"
    by (simp add: quota_then_error_def e)
  then have "execute_request quota_then_error 5
          (two_errors\<lparr>calls := calls two_errors @ [two_errors_request],
                      slept := slept two_errors + 100\<rparr>) two_errors_request =
        (Inl (HttpErrorExn (HttpError ''500'' ''backend error'')),
         two_errors\<lparr>calls := [two_errors_request, two_errors_request], slept := 100\<rparr>)"
    by (subst execute_request_HttpError) (simp_all add: e)
  with execute_request_429 [of quota_then_error two_errors two_errors_request 5] q1
  have q: "execute_request quota_then_error (Suc 5) two_errors two_errors_request =
        (Inl (HttpErrorExn (HttpError ''500'' ''backend error'')),
         two_errors\<lparr>calls := [two_errors_request, two_errors_request], slept := 100\<rparr>)"
    by simp
  have w3: "handle_errors quota_then_error 5 two_errors =
     (Inl (HttpErrorExn (HttpError ''500'' ''backend error'')),
      two_errors\<lparr>calls := [two_errors_request, two_errors_request], slept := 100\<rparr>)"
    using handle_errors_flush [OF r2 f2, where srv = quota_then_error and depth = 5
        and x = "HttpErrorExn (HttpError ''500'' ''backend error'')"
        and st' = "two_errors\<lparr>calls := [two_errors_request, two_errors_request],
                               slept := 100\<rparr>"] e q
    by blast
  have w4: "handle_errors no_failures 5 twelve_errors =
            (Inr (), twelve_errors\<lparr>calls := [twelve_errors_request]\<rparr>)"
    using handle_errors_flush [OF r12 f12, where srv = no_failures and depth = 5
        and ack = example_values] e
    by (simp add: no_failures_def)
  have "execute_request odd_row_service (Suc 5) (init ''cfg'') example_request =
        (Inr odd_row_config,
         (init ''cfg'')\<lparr>calls := calls (init ''cfg'') @ [example_request]\<rparr>)"
    by (rule execute_request_Returns) (simp add: odd_row_service_def)
  then have f: "fetch_config_data odd_row_service 5 (init ''cfg'') = (Inr (), odd_row_loaded)"
    by (simp add: fetch_config_data_def odd_row_config_def example_header_def
        init_def example_request_def configuration_range_def odd_row_loaded_def)
  have p: "process_tasks odd_row_service 5 odd_row_loaded = (Inr (), ?done)"
    by (simp add: process_tasks_def process_task_def subscript_def odd_row_loaded_def
        odd_task_def add_error_def)
  have w5: "list_all (\<lambda>row. length row = 1) (errors ?done)"
    using handle_errors_flush [OF r2 f2, where srv = odd_row_service and depth = 5
        and config_sheet_id = "''cfg''" and ?st1.0 = odd_row_loaded and ?st2.0 = ?done] f p
    by blast
  from w1 w2 w3 w4 w5 n2 n12 f p show ?thesis by blast
qed

end
